theory Spec2Isabelle
  imports Complex_Main
begin

section \<open>Data model of the workout trainer\<close>

text \<open>
  The model follows the latest version of \<^verbatim>\<open>WorkoutTrainer.tsx\<close>. JavaScript numbers
  that hold coordinates, angles and \<^verbatim>\<open>performance.now()\<close> timestamps are real
  numbers here (rounding, signed zeros and NaN of IEEE doubles are not represented);
  the two counters are integers. The value of \<^verbatim>\<open>performance.now()\<close> read by a
  processor is an explicit argument \<open>now\<close>, and the mutable reference
  \<^verbatim>\<open>lastRepAtRef.current\<close> is threaded through as an explicit value.
\<close>

datatype stage = Ready | Up | Down

text \<open>\<^verbatim>\<open>interface FormFlags\<close>: three optional booleans; \<open>None\<close> is an absent field.\<close>

record FormFlags =
  isDeepEnough :: "bool option"
  isFullyUp :: "bool option"
  isBackStraight :: "bool option"

record ExerciseMetrics =
  reps :: int
  stage :: stage
  goodReps :: int
  feedback :: "string list"
  formFlags :: FormFlags
  timer :: "int option"
  isTimerRunning :: "bool option"

text \<open>The object literal \<^verbatim>\<open>{}\<close> assigned to \<^verbatim>\<open>formFlags\<close>.\<close>

definition noFlags :: FormFlags where
  "noFlags = \<lparr>isDeepEnough = None, isFullyUp = None, isBackStraight = None\<rparr>"

text \<open>JavaScript truthiness of an optional boolean field.\<close>

fun truthy :: "bool option \<Rightarrow> bool" where
  "truthy (Some b) = b"
| "truthy None = False"

text \<open>The value \<^verbatim>\<open>base\<close> of \<^verbatim>\<open>resetWorkout\<close>, also the initial \<^verbatim>\<open>useState\<close> value.\<close>

definition base :: ExerciseMetrics where
  "base = \<lparr>reps = 0, stage = Ready, goodReps = 0, feedback = [], formFlags = noFlags,
           timer = Some 0, isTimerRunning = Some False\<rparr>"

text \<open>A pose landmark; a field is \<open>None\<close> when the property is missing on the object.\<close>

record landmark =
  lm_x :: "real option"
  lm_y :: "real option"

type_synonym point = "real \<times> real"

section \<open>Geometry helpers\<close>

text \<open>
  \<^verbatim>\<open>Math.atan2(y, x)\<close> on real numbers: the angle in \<open>(-\<pi>, \<pi>]\<close> of the vector
  \<open>(x, y)\<close>, and \<open>0\<close> for the zero vector.
\<close>

definition atan2 :: "real \<Rightarrow> real \<Rightarrow> real" where
  "atan2 y x =
     (if 0 < x then arctan (y / x)
      else if x < 0 then (if 0 \<le> y then arctan (y / x) + pi else arctan (y / x) - pi)
      else if 0 < y then pi / 2
      else if y < 0 then - (pi / 2)
      else 0)"

definition calculateAngle :: "point \<Rightarrow> point \<Rightarrow> point \<Rightarrow> real" where
  "calculateAngle a b c =
     (let radians = atan2 (snd c - snd b) (fst c - fst b) - atan2 (snd a - snd b) (fst a - fst b);
          angle = \<bar>(radians * 180) / pi\<bar>
      in if angle > 180 then 360 - angle else angle)"

text \<open>
  \<^verbatim>\<open>land(pts, idx) = [pts[idx]?.x ?? 0, pts[idx]?.y ?? 0]\<close>: an index past the end of
  the array reads \<^verbatim>\<open>undefined\<close>, and both coordinates default to \<open>0\<close>.
\<close>

definition land :: "landmark list \<Rightarrow> nat \<Rightarrow> point" where
  "land pts idx =
     (if idx < length pts
      then (case lm_x (pts ! idx) of Some v \<Rightarrow> v | None \<Rightarrow> 0,
            case lm_y (pts ! idx) of Some v \<Rightarrow> v | None \<Rightarrow> 0)
      else (0, 0))"

section \<open>The cooldown gate\<close>

text \<open>
  \<^verbatim>\<open>tryCount(next, now, cooldownMs)\<close> mutates \<^verbatim>\<open>next\<close> and \<^verbatim>\<open>lastRepAtRef.current\<close>;
  the model returns both.
\<close>

definition tryCount :: "ExerciseMetrics \<Rightarrow> real \<Rightarrow> real \<Rightarrow> real \<Rightarrow> ExerciseMetrics \<times> real" where
  "tryCount nxt lastRepAt now cooldownMs =
     (if now - lastRepAt > cooldownMs then
        (let n1 = nxt\<lparr>reps := reps nxt + 1\<rparr>;
             n2 = (if truthy (isDeepEnough (formFlags n1)) \<and> truthy (isFullyUp (formFlags n1))
                   then n1\<lparr>goodReps := goodReps n1 + 1, feedback := [''Good form!'']\<rparr>
                   else n1)
         in (n2\<lparr>formFlags := noFlags\<rparr>, now))
      else (nxt, lastRepAt))"

section \<open>Exercise processors\<close>

text \<open>
  Each processor of the source first computes its joint angle(s) from the landmarks and
  then runs a state update that reads only those numbers. The model keeps the two parts
  apart: \<open>fooStep\<close> is the body of \<^verbatim>\<open>nextFoo\<close> after the angle computation, and
  \<open>nextFoo\<close> feeds it the angles computed as in the source.
\<close>

definition setFullyUp :: "ExerciseMetrics \<Rightarrow> ExerciseMetrics" where
  "setFullyUp m = m\<lparr>formFlags := (formFlags m)\<lparr>isFullyUp := Some True\<rparr>\<rparr>"

definition setDeepEnough :: "ExerciseMetrics \<Rightarrow> ExerciseMetrics" where
  "setDeepEnough m = m\<lparr>formFlags := (formFlags m)\<lparr>isDeepEnough := Some True\<rparr>\<rparr>"

definition setBackStraight :: "bool \<Rightarrow> ExerciseMetrics \<Rightarrow> ExerciseMetrics" where
  "setBackStraight b m = m\<lparr>formFlags := (formFlags m)\<lparr>isBackStraight := Some b\<rparr>\<rparr>"

definition bicepCurlStep :: "real \<Rightarrow> real \<Rightarrow> ExerciseMetrics \<Rightarrow> real \<Rightarrow> ExerciseMetrics \<times> real" where
  "bicepCurlStep elbowAngle now prev lastRepAt =
     (let n0 = (if elbowAngle > 150 then setFullyUp (prev\<lparr>stage := Down\<rparr>) else prev)
      in if stage prev = Down \<and> elbowAngle < 50 then
           (let n1 = n0\<lparr>stage := Up\<rparr>;
                n2 = (if elbowAngle < 40 then setDeepEnough n1
                      else n1\<lparr>feedback := [''Curl a little higher.'']\<rparr>)
            in tryCount n2 lastRepAt now 350)
         else (n0, lastRepAt))"

definition elbowAngleOf :: "landmark list \<Rightarrow> real" where
  "elbowAngleOf landmarks =
     min (calculateAngle (land landmarks 11) (land landmarks 13) (land landmarks 15))
         (calculateAngle (land landmarks 12) (land landmarks 14) (land landmarks 16))"

definition nextBicepCurl :: "landmark list \<Rightarrow> real \<Rightarrow> ExerciseMetrics \<Rightarrow> real \<Rightarrow> ExerciseMetrics \<times> real" where
  "nextBicepCurl landmarks now prev lastRepAt =
     bicepCurlStep (elbowAngleOf landmarks) now prev lastRepAt"

definition squatsStep :: "real \<Rightarrow> real \<Rightarrow> ExerciseMetrics \<Rightarrow> real \<Rightarrow> ExerciseMetrics \<times> real" where
  "squatsStep kneeAngle now prev lastRepAt =
     (let n0 = (if kneeAngle > 160 then setFullyUp (prev\<lparr>stage := Up\<rparr>) else prev)
      in if stage prev = Up \<and> kneeAngle < 120 then
           (let n1 = n0\<lparr>stage := Down\<rparr>;
                n2 = (if kneeAngle < 100 then setDeepEnough n1
                      else n1\<lparr>feedback := [''Go a bit deeper.'']\<rparr>)
            in tryCount n2 lastRepAt now 450)
         else (n0, lastRepAt))"

definition frontKneeAngleOf :: "landmark list \<Rightarrow> real" where
  "frontKneeAngleOf landmarks =
     calculateAngle (land landmarks 23) (land landmarks 25) (land landmarks 27)"

definition backKneeAngleOf :: "landmark list \<Rightarrow> real" where
  "backKneeAngleOf landmarks =
     calculateAngle (land landmarks 24) (land landmarks 26) (land landmarks 28)"

definition kneeAngleOf :: "landmark list \<Rightarrow> real" where
  "kneeAngleOf landmarks = min (frontKneeAngleOf landmarks) (backKneeAngleOf landmarks)"

definition nextSquats :: "landmark list \<Rightarrow> real \<Rightarrow> ExerciseMetrics \<Rightarrow> real \<Rightarrow> ExerciseMetrics \<times> real" where
  "nextSquats landmarks now prev lastRepAt =
     squatsStep (kneeAngleOf landmarks) now prev lastRepAt"

text \<open>
  Push-ups: the body angle is judged first on every frame; the gate is consulted only
  when \<^verbatim>\<open>next.formFlags.isBackStraight\<close> is truthy.
\<close>

definition pushupsStep :: "real \<Rightarrow> real \<Rightarrow> real \<Rightarrow> ExerciseMetrics \<Rightarrow> real \<Rightarrow> ExerciseMetrics \<times> real" where
  "pushupsStep elbowAngle bodyAngle now prev lastRepAt =
     (let n0 = (if bodyAngle < 155 \<or> bodyAngle > 205
                then setBackStraight False (prev\<lparr>feedback := [''Keep your body straight!'']\<rparr>)
                else setBackStraight True prev);
          n1 = (if elbowAngle > 150 then setFullyUp (n0\<lparr>stage := Up\<rparr>) else n0)
      in if stage prev = Up \<and> elbowAngle < 110 then
           (let n2 = n1\<lparr>stage := Down\<rparr>;
                n3 = (if elbowAngle < 100 then setDeepEnough n2
                      else n2\<lparr>feedback := [''Go a bit lower.'']\<rparr>)
            in if truthy (isBackStraight (formFlags n3))
               then tryCount n3 lastRepAt now 450
               else (n3, lastRepAt))
         else (n1, lastRepAt))"

definition bodyAngleOf :: "landmark list \<Rightarrow> real" where
  "bodyAngleOf landmarks =
     calculateAngle (land landmarks 12) (land landmarks 24) (land landmarks 28)"

definition nextPushups :: "landmark list \<Rightarrow> real \<Rightarrow> ExerciseMetrics \<Rightarrow> real \<Rightarrow> ExerciseMetrics \<times> real" where
  "nextPushups landmarks now prev lastRepAt =
     pushupsStep (elbowAngleOf landmarks) (bodyAngleOf landmarks) now prev lastRepAt"

definition lungesStep :: "real \<Rightarrow> real \<Rightarrow> real \<Rightarrow> ExerciseMetrics \<Rightarrow> real \<Rightarrow> ExerciseMetrics \<times> real" where
  "lungesStep frontKneeAngle backKneeAngle now prev lastRepAt =
     (let n0 = (if frontKneeAngle > 150 \<and> backKneeAngle > 150
                then setFullyUp (prev\<lparr>stage := Up\<rparr>) else prev)
      in if stage prev = Up \<and> (frontKneeAngle < 120 \<or> backKneeAngle < 120) then
           (let n1 = n0\<lparr>stage := Down\<rparr>;
                n2 = (if frontKneeAngle < 110 \<and> backKneeAngle < 110 then setDeepEnough n1
                      else n1\<lparr>feedback := [''Lower your hips.'']\<rparr>)
            in tryCount n2 lastRepAt now 500)
         else (n0, lastRepAt))"

definition nextLunges :: "landmark list \<Rightarrow> real \<Rightarrow> ExerciseMetrics \<Rightarrow> real \<Rightarrow> ExerciseMetrics \<times> real" where
  "nextLunges landmarks now prev lastRepAt =
     lungesStep (frontKneeAngleOf landmarks) (backKneeAngleOf landmarks) now prev lastRepAt"

text \<open>Overhead press: the cycle starts low, so the roles of the two flags are swapped.\<close>

definition setDown :: "ExerciseMetrics \<Rightarrow> ExerciseMetrics" where
  "setDown m = setDeepEnough (m\<lparr>stage := Down\<rparr>)"

definition overheadPressStep :: "real \<Rightarrow> real \<Rightarrow> ExerciseMetrics \<Rightarrow> real \<Rightarrow> ExerciseMetrics \<times> real" where
  "overheadPressStep elbowAngle now prev lastRepAt =
     (let n0 = (if elbowAngle < 110 then setDown prev else prev)
      in if stage prev = Down \<and> elbowAngle > 140 then
           (let n1 = n0\<lparr>stage := Up\<rparr>;
                n2 = (if elbowAngle > 150 then setFullyUp n1
                      else n1\<lparr>feedback := [''Extend arms fully!'']\<rparr>)
            in tryCount n2 lastRepAt now 350)
         else (n0, lastRepAt))"

definition nextOverheadPress :: "landmark list \<Rightarrow> real \<Rightarrow> ExerciseMetrics \<Rightarrow> real \<Rightarrow> ExerciseMetrics \<times> real" where
  "nextOverheadPress landmarks now prev lastRepAt =
     overheadPressStep (elbowAngleOf landmarks) now prev lastRepAt"

definition lateralRaisesStep :: "real \<Rightarrow> real \<Rightarrow> real \<Rightarrow> ExerciseMetrics \<Rightarrow> real \<Rightarrow> ExerciseMetrics \<times> real" where
  "lateralRaisesStep shoulderAngle elbowAngle now prev lastRepAt =
     (let n0 = (if elbowAngle < 140 then prev\<lparr>feedback := [''Keep arms straighter!'']\<rparr> else prev);
          n1 = (if shoulderAngle < 40 then setDown n0 else n0)
      in if stage prev = Down \<and> shoulderAngle > 60 then
           (let n2 = n1\<lparr>stage := Up\<rparr>;
                n3 = (if shoulderAngle > 75 then setFullyUp n2
                      else n2\<lparr>feedback := [''Raise a little higher.'']\<rparr>)
            in tryCount n3 lastRepAt now 500)
         else (n1, lastRepAt))"

definition shoulderAngleOf :: "landmark list \<Rightarrow> real" where
  "shoulderAngleOf landmarks =
     max (calculateAngle (land landmarks 23) (land landmarks 11) (land landmarks 13))
         (calculateAngle (land landmarks 24) (land landmarks 12) (land landmarks 14))"

definition nextLateralRaises :: "landmark list \<Rightarrow> real \<Rightarrow> ExerciseMetrics \<Rightarrow> real \<Rightarrow> ExerciseMetrics \<times> real" where
  "nextLateralRaises landmarks now prev lastRepAt =
     lateralRaisesStep (shoulderAngleOf landmarks) (elbowAngleOf landmarks) now prev lastRepAt"

text \<open>Pull-ups compare image heights of wrists and shoulders; no angle is involved.\<close>

definition pullupsStep :: "real \<Rightarrow> real \<Rightarrow> real \<Rightarrow> ExerciseMetrics \<Rightarrow> real \<Rightarrow> ExerciseMetrics \<times> real" where
  "pullupsStep wrist_y shoulder_y now prev lastRepAt =
     (let n0 = (if wrist_y > shoulder_y then setFullyUp (prev\<lparr>stage := Down\<rparr>) else prev)
      in if stage prev = Down \<and> wrist_y < shoulder_y then
           (let n1 = n0\<lparr>stage := Up\<rparr>;
                n2 = (if wrist_y < shoulder_y - 5 / 100 then setDeepEnough n1
                      else n1\<lparr>feedback := [''Pull higher!'']\<rparr>)
            in tryCount n2 lastRepAt now 600)
         else (n0, lastRepAt))"

definition wristYOf :: "landmark list \<Rightarrow> real" where
  "wristYOf landmarks = min (snd (land landmarks 15)) (snd (land landmarks 16))"

definition shoulderYOf :: "landmark list \<Rightarrow> real" where
  "shoulderYOf landmarks = min (snd (land landmarks 11)) (snd (land landmarks 12))"

definition nextPullups :: "landmark list \<Rightarrow> real \<Rightarrow> ExerciseMetrics \<Rightarrow> real \<Rightarrow> ExerciseMetrics \<times> real" where
  "nextPullups landmarks now prev lastRepAt =
     pullupsStep (wristYOf landmarks) (shoulderYOf landmarks) now prev lastRepAt"

definition gluteBridgesStep :: "real \<Rightarrow> real \<Rightarrow> ExerciseMetrics \<Rightarrow> real \<Rightarrow> ExerciseMetrics \<times> real" where
  "gluteBridgesStep hipAngle now prev lastRepAt =
     (let n0 = (if hipAngle < 140 then setDown prev else prev)
      in if stage prev = Down \<and> hipAngle > 150 then
           (let n1 = n0\<lparr>stage := Up\<rparr>;
                n2 = (if hipAngle > 155 then setFullyUp n1
                      else n1\<lparr>feedback := [''Extend your hips fully.'']\<rparr>)
            in tryCount n2 lastRepAt now 500)
         else (n0, lastRepAt))"

definition leftHipAngleOf :: "landmark list \<Rightarrow> real" where
  "leftHipAngleOf landmarks =
     calculateAngle (land landmarks 11) (land landmarks 23) (land landmarks 25)"

definition rightHipAngleOf :: "landmark list \<Rightarrow> real" where
  "rightHipAngleOf landmarks =
     calculateAngle (land landmarks 12) (land landmarks 24) (land landmarks 26)"

definition hipAngleMaxOf :: "landmark list \<Rightarrow> real" where
  "hipAngleMaxOf landmarks = max (leftHipAngleOf landmarks) (rightHipAngleOf landmarks)"

definition hipAngleMinOf :: "landmark list \<Rightarrow> real" where
  "hipAngleMinOf landmarks = min (leftHipAngleOf landmarks) (rightHipAngleOf landmarks)"

definition nextGluteBridges :: "landmark list \<Rightarrow> real \<Rightarrow> ExerciseMetrics \<Rightarrow> real \<Rightarrow> ExerciseMetrics \<times> real" where
  "nextGluteBridges landmarks now prev lastRepAt =
     gluteBridgesStep (hipAngleMaxOf landmarks) now prev lastRepAt"

definition crunchesStep :: "real \<Rightarrow> real \<Rightarrow> ExerciseMetrics \<Rightarrow> real \<Rightarrow> ExerciseMetrics \<times> real" where
  "crunchesStep hipAngle now prev lastRepAt =
     (let n0 = (if hipAngle > 115 then setDown prev else prev)
      in if stage prev = Down \<and> hipAngle < 110 then
           (let n1 = n0\<lparr>stage := Up\<rparr>;
                n2 = (if hipAngle < 105 then setFullyUp n1
                      else n1\<lparr>feedback := [''Crunch a little higher.'']\<rparr>)
            in tryCount n2 lastRepAt now 400)
         else (n0, lastRepAt))"

definition nextCrunches :: "landmark list \<Rightarrow> real \<Rightarrow> ExerciseMetrics \<Rightarrow> real \<Rightarrow> ExerciseMetrics \<times> real" where
  "nextCrunches landmarks now prev lastRepAt =
     crunchesStep (hipAngleMinOf landmarks) now prev lastRepAt"

text \<open>The plank processor never calls the gate and never reads the clock.\<close>

definition plankStep :: "real \<Rightarrow> ExerciseMetrics \<Rightarrow> ExerciseMetrics" where
  "plankStep bodyAngle prev =
     (if bodyAngle > 155 \<and> bodyAngle < 205
      then prev\<lparr>isTimerRunning := Some True, feedback := [''Good form! Hold it.'']\<rparr>
      else prev\<lparr>isTimerRunning := Some False, feedback := [''Straighten your back!'']\<rparr>)"

definition nextPlank :: "landmark list \<Rightarrow> real \<Rightarrow> ExerciseMetrics \<Rightarrow> real \<Rightarrow> ExerciseMetrics \<times> real" where
  "nextPlank landmarks now prev lastRepAt = (plankStep (bodyAngleOf landmarks) prev, lastRepAt)"

section \<open>Dispatch and session lifecycle\<close>

type_synonym processor =
  "landmark list \<Rightarrow> real \<Rightarrow> ExerciseMetrics \<Rightarrow> real \<Rightarrow> ExerciseMetrics \<times> real"

text \<open>
  The object \<^verbatim>\<open>exerciseProcessors\<close>, keyed by exercise identifier. The identifiers
  the component looks up are those of its catalogue, or the empty string when nothing is
  selected; any other key has no processor here.
\<close>

definition exerciseProcessors :: "string \<Rightarrow> processor option" where
  "exerciseProcessors = map_of
     [(''bicep_curl'', nextBicepCurl),
      (''squats'', nextSquats),
      (''pushups'', nextPushups),
      (''lunges'', nextLunges),
      (''overhead_press'', nextOverheadPress),
      (''lateral_raises'', nextLateralRaises),
      (''pullups'', nextPullups),
      (''glute_bridges'', nextGluteBridges),
      (''crunches'', nextCrunches),
      (''plank'', nextPlank)]"

text \<open>
  The mutable references of the component that the frame callback reads and writes:
  \<^verbatim>\<open>metricsRef\<close>, \<^verbatim>\<open>selectedExerciseRef\<close>, \<^verbatim>\<open>isActiveRef\<close> and \<^verbatim>\<open>lastRepAtRef\<close>.
  Callbacks run one at a time; each is modelled as one function on this record, with
  the React state and the reference that mirrors it kept as one value.
\<close>

record engine =
  metricsRef :: ExerciseMetrics
  selectedExerciseRef :: "string option"
  isActiveRef :: bool
  lastRepAtRef :: real

definition initialEngine :: engine where
  "initialEngine = \<lparr>metricsRef = base, selectedExerciseRef = None, isActiveRef = False,
                     lastRepAtRef = 0\<rparr>"

text \<open>
  \<^verbatim>\<open>onPoseResults(results)\<close>: \<open>None\<close> is a result without \<^verbatim>\<open>poseLandmarks\<close>; \<open>now\<close> is
  what \<^verbatim>\<open>performance.now()\<close> returns during this call. Drawing is not modelled.
\<close>

definition onPoseResults :: "landmark list option \<Rightarrow> real \<Rightarrow> engine \<Rightarrow> engine" where
  "onPoseResults poseLandmarks now eng =
     (case poseLandmarks of
        None \<Rightarrow> eng
      | Some landmarks \<Rightarrow>
          if isActiveRef eng then
            (let current = metricsRef eng;
                 key = (case selectedExerciseRef eng of None \<Rightarrow> [] | Some s \<Rightarrow> s)
             in case exerciseProcessors key of
                  Some exerciseProcessor \<Rightarrow>
                    (let r = exerciseProcessor landmarks now current (lastRepAtRef eng)
                     in eng\<lparr>metricsRef := fst r, lastRepAtRef := snd r\<rparr>)
                | None \<Rightarrow> eng\<lparr>metricsRef := current\<rparr>)
          else eng)"

text \<open>
  The effect on \<^verbatim>\<open>[selectedExercise]\<close>: it runs when the selection changes, and resets
  the metrics and the cooldown timestamp.
\<close>

definition selectExercise :: "string option \<Rightarrow> engine \<Rightarrow> engine" where
  "selectExercise sel eng =
     (if sel = selectedExerciseRef eng then eng
      else eng\<lparr>selectedExerciseRef := sel, metricsRef := base, lastRepAtRef := 0\<rparr>)"

definition resetWorkout :: "engine \<Rightarrow> engine" where
  "resetWorkout eng = eng\<lparr>metricsRef := base, isActiveRef := False, lastRepAtRef := 0\<rparr>"

text \<open>The end of the countdown in \<^verbatim>\<open>startWorkout\<close>, and \<^verbatim>\<open>endWorkout\<close>.\<close>

definition startWorkout :: "engine \<Rightarrow> engine" where
  "startWorkout eng = eng\<lparr>isActiveRef := True\<rparr>"

definition endWorkout :: "engine \<Rightarrow> engine" where
  "endWorkout eng = eng\<lparr>isActiveRef := False\<rparr>"

text \<open>One tick of the plank interval: \<^verbatim>\<open>timer: (prev.timer || 0) + 1\<close>.\<close>

definition timerTick :: "engine \<Rightarrow> engine" where
  "timerTick eng =
     (if isActiveRef eng \<and> selectedExerciseRef eng = Some ''plank''
         \<and> truthy (isTimerRunning (metricsRef eng))
      then eng\<lparr>metricsRef := (metricsRef eng)
             \<lparr>timer := Some ((case timer (metricsRef eng) of None \<Rightarrow> 0 | Some n \<Rightarrow> n) + 1)\<rparr>\<rparr>
      else eng)"

datatype event =
    PoseResults "landmark list option" real
  | SelectExercise "string option"
  | StartWorkout
  | EndWorkout
  | ResetWorkout
  | TimerTick

fun step :: "engine \<Rightarrow> event \<Rightarrow> engine" where
  "step eng (PoseResults poseLandmarks now) = onPoseResults poseLandmarks now eng"
| "step eng (SelectExercise sel) = selectExercise sel eng"
| "step eng StartWorkout = startWorkout eng"
| "step eng EndWorkout = endWorkout eng"
| "step eng ResetWorkout = resetWorkout eng"
| "step eng TimerTick = timerTick eng"

definition run :: "engine \<Rightarrow> event list \<Rightarrow> engine" where
  "run eng evs = foldl step eng evs"

text \<open>Feeding a processor body a list of (angle, timestamp) pairs, in order.\<close>

definition runAngles ::
  "(real \<Rightarrow> real \<Rightarrow> ExerciseMetrics \<Rightarrow> real \<Rightarrow> ExerciseMetrics \<times> real)
     \<Rightarrow> ExerciseMetrics \<times> real \<Rightarrow> (real \<times> real) list \<Rightarrow> ExerciseMetrics \<times> real" where
  "runAngles body s frames = foldl (\<lambda>s f. body (fst f) (snd f) (fst s) (snd s)) s frames"

section \<open>Reference notions used to state the properties\<close>






text \<open>Running the frame callback over a list of (result, timestamp) pairs, in order.\<close>

definition runFrames :: "engine \<Rightarrow> (landmark list option \<times> real) list \<Rightarrow> engine" where
  "runFrames eng frames = foldl (\<lambda>e f. onPoseResults (fst f) (snd f) e) eng frames"

text \<open>
  Calling the processor registered for an identifier on a pair of metrics and cooldown
  timestamp (an identifier without a processor changes nothing), and a list of such
  calls, each with its own identifier, landmarks and clock value.
\<close>

definition applyProcessor ::
  "string \<Rightarrow> landmark list \<Rightarrow> real \<Rightarrow> ExerciseMetrics \<times> real \<Rightarrow> ExerciseMetrics \<times> real" where
  "applyProcessor key landmarks now s =
     (case exerciseProcessors key of
        Some exerciseProcessor \<Rightarrow> exerciseProcessor landmarks now (fst s) (snd s)
      | None \<Rightarrow> s)"

definition runProcessors ::
  "ExerciseMetrics \<times> real \<Rightarrow> (string \<times> landmark list \<times> real) list \<Rightarrow> ExerciseMetrics \<times> real" where
  "runProcessors s calls =
     foldl (\<lambda>s c. applyProcessor (fst c) (fst (snd c)) (snd (snd c)) s) s calls"

text \<open>
  The cooldown each processor passes to \<^verbatim>\<open>tryCount\<close> (350 is the default of the
  parameter); the plank processor has none.
\<close>

definition cooldownOf :: "string \<Rightarrow> real" where
  "cooldownOf key =
     (case map_of
        [(''bicep_curl'', 350 :: real), (''squats'', 450), (''pushups'', 450), (''lunges'', 500),
         (''overhead_press'', 350), (''lateral_raises'', 500), (''pullups'', 600),
         (''glute_bridges'', 500), (''crunches'', 400)] key of
        Some c \<Rightarrow> c | None \<Rightarrow> 0)"

text \<open>
  What one processor call can do to the counters, the feedback and the cooldown
  timestamp: \<open>r\<close> is the returned pair, \<open>prev\<close> and \<open>l\<close> are the metrics and the
  timestamp before the call.
\<close>

definition outcome :: "real \<Rightarrow> real \<Rightarrow> ExerciseMetrics \<Rightarrow> real \<Rightarrow> ExerciseMetrics \<times> real \<Rightarrow> bool" where
  "outcome cd now prev l r \<longleftrightarrow>
     (feedback (fst r) = feedback prev \<or> length (feedback (fst r)) = 1) \<and>
     ((reps (fst r) = reps prev \<and> goodReps (fst r) = goodReps prev \<and> snd r = l) \<or>
      (now - l > cd \<and> reps (fst r) = reps prev + 1 \<and> snd r = now \<and>
       (goodReps (fst r) = goodReps prev \<or> goodReps (fst r) = goodReps prev + 1)))"

definition countsOk :: "ExerciseMetrics \<Rightarrow> bool" where
  "countsOk m \<longleftrightarrow> 0 \<le> goodReps m \<and> goodReps m \<le> reps m"

text \<open>
  A processor call with result \<open>r\<close> is quiet when it leaves both counters and the cooldown
  timestamp as they were.
\<close>

definition quiet :: "ExerciseMetrics \<Rightarrow> real \<Rightarrow> ExerciseMetrics \<times> real \<Rightarrow> bool" where
  "quiet prev l r \<longleftrightarrow> reps (fst r) = reps prev \<and> goodReps (fst r) = goodReps prev \<and> snd r = l"

text \<open>
  The relaxed thresholds \<open>(T_enter, T_exit)\<close> of the nine repetition processors, and the
  quantity each of them compares with its thresholds. Lunges test both knees, which is
  a test of the smaller knee angle; pull-ups compare wrist height with shoulder height,
  so the quantity is their difference and both thresholds are \<open>0\<close>.
\<close>

definition dynamicExercises :: "string list" where
  "dynamicExercises =
     [''bicep_curl'', ''squats'', ''pushups'', ''lunges'', ''overhead_press'',
      ''lateral_raises'', ''pullups'', ''glute_bridges'', ''crunches'']"

definition relaxedThresholds :: "string \<Rightarrow> real \<times> real" where
  "relaxedThresholds key =
     (case map_of
        [(''bicep_curl'', (150 :: real, 50 :: real)), (''squats'', (160, 120)),
         (''pushups'', (150, 110)), (''lunges'', (150, 120)), (''overhead_press'', (110, 140)),
         (''lateral_raises'', (40, 60)), (''pullups'', (0, 0)), (''glute_bridges'', (140, 150)),
         (''crunches'', (115, 110))] key of
        Some th \<Rightarrow> th | None \<Rightarrow> (0, 0))"

definition combinedAngle :: "string \<Rightarrow> landmark list \<Rightarrow> real" where
  "combinedAngle key landmarks =
     (case map_of
        [(''bicep_curl'', elbowAngleOf landmarks), (''squats'', kneeAngleOf landmarks),
         (''pushups'', elbowAngleOf landmarks), (''lunges'', kneeAngleOf landmarks),
         (''overhead_press'', elbowAngleOf landmarks),
         (''lateral_raises'', shoulderAngleOf landmarks),
         (''pullups'', wristYOf landmarks - shoulderYOf landmarks),
         (''glute_bridges'', hipAngleMaxOf landmarks),
         (''crunches'', hipAngleMinOf landmarks)] key of
        Some v \<Rightarrow> v | None \<Rightarrow> 0)"

text \<open>
  A frame lies between the relaxed thresholds when it has no landmarks or its quantity
  is strictly between them; it is past the exit threshold when its quantity is beyond
  \<open>T_exit\<close> on the side away from \<open>T_enter\<close>.
\<close>

definition betweenRelaxed :: "string \<Rightarrow> landmark list option \<times> real \<Rightarrow> bool" where
  "betweenRelaxed key f =
     (case fst f of
        None \<Rightarrow> True
      | Some landmarks \<Rightarrow>
          min (fst (relaxedThresholds key)) (snd (relaxedThresholds key)) < combinedAngle key landmarks
          \<and> combinedAngle key landmarks < max (fst (relaxedThresholds key)) (snd (relaxedThresholds key)))"

definition pastExit :: "string \<Rightarrow> landmark list option \<times> real \<Rightarrow> bool" where
  "pastExit key f =
     (case fst f of
        None \<Rightarrow> False
      | Some landmarks \<Rightarrow>
          if snd (relaxedThresholds key) \<le> fst (relaxedThresholds key)
          then combinedAngle key landmarks < snd (relaxedThresholds key)
          else combinedAngle key landmarks > snd (relaxedThresholds key))"

text \<open>
  The strings each processor can assign to the feedback, those of \<^verbatim>\<open>tryCount\<close>
  included, and the frames on which a repetition processor assigns one outside its count
  branch: the push-up posture advisory and the lateral-raise straight-arm advisory.
\<close>

definition advisoriesOf :: "string \<Rightarrow> string list" where
  "advisoriesOf key =
     (case map_of
        [(''bicep_curl'', [''Curl a little higher.'', ''Good form!'']),
         (''squats'', [''Go a bit deeper.'', ''Good form!'']),
         (''pushups'', [''Keep your body straight!'', ''Go a bit lower.'', ''Good form!'']),
         (''lunges'', [''Lower your hips.'', ''Good form!'']),
         (''overhead_press'', [''Extend arms fully!'', ''Good form!'']),
         (''lateral_raises'',
            [''Keep arms straighter!'', ''Raise a little higher.'', ''Good form!'']),
         (''pullups'', [''Pull higher!'', ''Good form!'']),
         (''glute_bridges'', [''Extend your hips fully.'', ''Good form!'']),
         (''crunches'', [''Crunch a little higher.'', ''Good form!'']),
         (''plank'', [''Good form! Hold it.'', ''Straighten your back!''])] key of
        Some msgs \<Rightarrow> msgs | None \<Rightarrow> [])"

text \<open>
  A processor call with result \<open>r\<close> wrote one of \<open>msgs\<close> when the feedback it returns is
  the previous one or a single string of \<open>msgs\<close>.
\<close>

definition wrote :: "string list \<Rightarrow> ExerciseMetrics \<Rightarrow> ExerciseMetrics \<times> real \<Rightarrow> bool" where
  "wrote msgs prev r \<longleftrightarrow>
     feedback (fst r) = feedback prev \<or> feedback (fst r) \<in> set (map (\<lambda>s. [s]) msgs)"

definition postureAdvisory :: "string \<Rightarrow> landmark list \<Rightarrow> bool" where
  "postureAdvisory key landmarks =
     (key = ''pushups'' \<and> (bodyAngleOf landmarks < 155 \<or> bodyAngleOf landmarks > 205)
      \<or> key = ''lateral_raises'' \<and> elbowAngleOf landmarks < 140)"

text \<open>
  Sample poses: both arms with the given shoulder, elbow and wrist positions (landmarks
  11 to 16), every other landmark at the origin.
\<close>

definition lm :: "point \<Rightarrow> landmark" where
  "lm p = \<lparr>lm_x = Some (fst p), lm_y = Some (snd p)\<rparr>"

definition armPose :: "point \<Rightarrow> point \<Rightarrow> point \<Rightarrow> landmark list" where
  "armPose shoulder elbow wrist =
     replicate 11 (lm (0, 0))
     @ [lm shoulder, lm shoulder, lm elbow, lm elbow, lm wrist, lm wrist]"

text \<open>
  A pose given by a position for each of the 33 landmarks, and the pose with the right
  shoulder (12), right hip (24) and right ankle (28) at given positions and every other
  landmark at the origin.
\<close>

definition poseOf :: "(nat \<Rightarrow> point) \<Rightarrow> landmark list" where
  "poseOf f = map (\<lambda>i. lm (f i)) [0..<33]"

definition bodyPose :: "point \<Rightarrow> point \<Rightarrow> point \<Rightarrow> landmark list" where
  "bodyPose shoulder hip ankle =
     poseOf (\<lambda>i. if i = 12 then shoulder else if i = 24 then hip else if i = 28 then ankle
                 else (0, 0))"

text \<open>The pose with both elbows bent to \<open>d\<close> degrees.\<close>

definition poseAt :: "real \<Rightarrow> landmark list" where
  "poseAt d = armPose (cos (d * pi / 180), sin (d * pi / 180)) (0, 0) (1, 0)"

section \<open>Geometry\<close>






section \<open>The angle as an interior angle, and degenerate inputs\<close>










section \<open>Simplification rules for the flag setters\<close>

lemma setters_simps [simp]:
  "reps (setFullyUp m) = reps m" "goodReps (setFullyUp m) = goodReps m"
  "stage (setFullyUp m) = stage m" "feedback (setFullyUp m) = feedback m"
  "reps (setDeepEnough m) = reps m" "goodReps (setDeepEnough m) = goodReps m"
  "stage (setDeepEnough m) = stage m" "feedback (setDeepEnough m) = feedback m"
  "reps (setBackStraight b m) = reps m" "goodReps (setBackStraight b m) = goodReps m"
  "stage (setBackStraight b m) = stage m" "feedback (setBackStraight b m) = feedback m"
  "reps (setDown m) = reps m" "goodReps (setDown m) = goodReps m"
  "stage (setDown m) = Down" "feedback (setDown m) = feedback m"
  by (simp_all add: setFullyUp_def setDeepEnough_def setBackStraight_def setDown_def)

section \<open>Frames without landmarks\<close>

text \<open>
  C7. A frame that carries no landmarks leaves the engine as it was: \<open>reps\<close>,
  \<open>goodReps\<close>, \<open>stage\<close> and \<open>feedback\<close> are those of the state before the frame, and the
  cooldown timestamp is not touched.
\<close>

theorem no_landmarks_noop:
  "onPoseResults None now eng = eng
   \<and> reps (metricsRef (onPoseResults None now eng)) = reps (metricsRef eng)
   \<and> goodReps (metricsRef (onPoseResults None now eng)) = goodReps (metricsRef eng)
   \<and> stage (metricsRef (onPoseResults None now eng)) = stage (metricsRef eng)
   \<and> feedback (metricsRef (onPoseResults None now eng)) = feedback (metricsRef eng)
   \<and> run eng (map (\<lambda>t. PoseResults None t) ts) = eng"
proof -
  have one: "\<And>t e. onPoseResults None t e = e"
    by (simp add: onPoseResults_def)
  have "run eng (map (\<lambda>t. PoseResults None t) ts) = eng"
    unfolding run_def by (induction ts arbitrary: eng) (simp_all add: one)
  then show ?thesis by (simp add: one)
qed

section \<open>The first candidate of a session\<close>

lemmas eval_defs = runAngles_def tryCount_def Let_def base_def noFlags_def
  setFullyUp_def setDeepEnough_def setBackStraight_def setDown_def

text \<open>
  C10. The cooldown timestamp is \<open>0\<close> in the initial engine, after \<^verbatim>\<open>resetWorkout\<close> and
  after a change of the selected exercise. With that value the gate accepts a candidate
  exactly when \<open>now > cooldownMs\<close>; a candidate at \<open>now \<le> cooldownMs\<close> is dropped and leaves
  the metrics and the timestamp as they were, although nothing was accepted before it. For
  the bicep curl, whose cooldown is 350, a first repetition completed at time \<open>t\<close> is
  counted exactly when \<open>t > 350\<close>.
\<close>

theorem first_candidate_gate:
  "lastRepAtRef initialEngine = 0
   \<and> lastRepAtRef (resetWorkout eng) = 0
   \<and> lastRepAtRef (selectExercise sel eng)
       = (if sel = selectedExerciseRef eng then lastRepAtRef eng else 0)
   \<and> (reps (fst (tryCount nxt 0 now cooldownMs)) = reps nxt + 1 \<longleftrightarrow> now > cooldownMs)
   \<and> (now \<le> cooldownMs \<longrightarrow> tryCount nxt 0 now cooldownMs = (nxt, 0))
   \<and> reps (fst (runAngles bicepCurlStep (base, 0) [(170, s), (35, t)]))
       = (if t > 350 then 1 else 0)"
  by (simp add: initialEngine_def resetWorkout_def selectExercise_def bicepCurlStep_def eval_defs)

theorem first_candidate_gate_witness:
  "tryCount base 0 200 350 = (base, 0)
   \<and> reps (fst (tryCount base 0 350 350)) = 0
   \<and> reps (fst (tryCount base 0 400 350)) = 1
   \<and> reps (fst (runAngles bicepCurlStep (base, 0) [(170, 0), (35, 300)])) = 0"
  using first_candidate_gate [of initialEngine None base 200 350 0 300]
        first_candidate_gate [of initialEngine None base 350 350 0 300]
        first_candidate_gate [of initialEngine None base 400 350 0 300]
  by (simp add: base_def)

section \<open>The bicep-curl scenario\<close>

text \<open>
  C3, at the timestamps the scenario gives, fails. The candidate at \<open>t = 0\<close> meets the
  gate with \<open>lastRepAt = 0\<close> and \<open>0 - 0 > 350\<close> is false, so it is dropped; only the
  repetition at \<open>t = 400\<close> is counted, and it is a good one.
\<close>

theorem bicep_scenario_literal:
  "reps (fst (runAngles bicepCurlStep (base, 0)
       [(170, 0), (160, 0), (45, 0), (170, 200), (35, 400)])) = 1
   \<and> goodReps (fst (runAngles bicepCurlStep (base, 0)
       [(170, 0), (160, 0), (45, 0), (170, 200), (35, 400)])) = 1
   \<and> reps (fst (runAngles bicepCurlStep (base, 0)
       [(170, 0), (160, 0), (45, 0), (170, 200), (35, 400)])) \<noteq> 2"
  by (simp add: bicepCurlStep_def eval_defs)

text \<open>
  C3, amended. From the initial state the elbow angles 170, 160, 45 (at time \<open>t1\<close>), 170,
  35 (at time \<open>t2\<close>) give \<open>reps = 2\<close> and \<open>goodReps = 1\<close> whenever \<open>t1 > 350\<close> and
  \<open>t2 - t1 > 350\<close>, whatever the timestamps of the other three frames; when \<open>t1 \<le> 350\<close>
  and \<open>t2 > 350\<close> (as for 0 and 400) they give \<open>reps = 1\<close> and \<open>goodReps = 1\<close>.
\<close>

theorem bicep_scenario_shifted:
  "(350 < t1 \<and> 350 < t2 - t1 \<longrightarrow>
      reps (fst (runAngles bicepCurlStep (base, 0)
        [(170, s1), (160, s2), (45, t1), (170, s3), (35, t2)])) = 2
      \<and> goodReps (fst (runAngles bicepCurlStep (base, 0)
        [(170, s1), (160, s2), (45, t1), (170, s3), (35, t2)])) = 1)
   \<and> (t1 \<le> 350 \<and> 350 < t2 \<longrightarrow>
      reps (fst (runAngles bicepCurlStep (base, 0)
        [(170, s1), (160, s2), (45, t1), (170, s3), (35, t2)])) = 1
      \<and> goodReps (fst (runAngles bicepCurlStep (base, 0)
        [(170, s1), (160, s2), (45, t1), (170, s3), (35, t2)])) = 1)"
  by (simp add: bicepCurlStep_def eval_defs)

theorem bicep_scenario_shifted_witness:
  "reps (fst (runAngles bicepCurlStep (base, 0)
       [(170, 900), (160, 950), (45, 1000), (170, 1200), (35, 1400)])) = 2
   \<and> goodReps (fst (runAngles bicepCurlStep (base, 0)
       [(170, 900), (160, 950), (45, 1000), (170, 1200), (35, 1400)])) = 1
   \<and> goodReps (fst (runAngles bicepCurlStep (base, 0)
       [(170, 0), (160, 0), (45, 0), (170, 200), (35, 400)])) = 1"
  using bicep_scenario_shifted [of 1000 1400 900 950 1200]
        bicep_scenario_shifted [of 0 400 0 0 200]
  by simp

section \<open>The bodies of the plank and push-up processors\<close>

lemma plankStep_band:
  "(155 < a \<and> a < 205 \<longrightarrow>
      isTimerRunning (plankStep a prev) = Some True
      \<and> feedback (plankStep a prev) = [''Good form! Hold it.''])
   \<and> (a \<le> 155 \<or> 205 \<le> a \<longrightarrow>
      isTimerRunning (plankStep a prev) = Some False
      \<and> feedback (plankStep a prev) = [''Straighten your back!''])
   \<and> reps (plankStep a prev) = reps prev
   \<and> goodReps (plankStep a prev) = goodReps prev"
  by (simp add: plankStep_def)

lemma pushupsStep_posture:
  assumes "bodyAngle < 155 \<or> bodyAngle > 205"
  shows "isBackStraight (formFlags (fst (pushupsStep elbowAngle bodyAngle now prev lastRepAt)))
           = Some False
   \<and> reps (fst (pushupsStep elbowAngle bodyAngle now prev lastRepAt)) = reps prev
   \<and> goodReps (fst (pushupsStep elbowAngle bodyAngle now prev lastRepAt)) = goodReps prev
   \<and> snd (pushupsStep elbowAngle bodyAngle now prev lastRepAt) = lastRepAt
   \<and> feedback (fst (pushupsStep elbowAngle bodyAngle now prev lastRepAt))
       = (if stage prev = Up \<and> 100 \<le> elbowAngle \<and> elbowAngle < 110
          then [''Go a bit lower.''] else [''Keep your body straight!''])
   \<and> stage (fst (pushupsStep elbowAngle bodyAngle now prev lastRepAt))
       = (if stage prev = Up \<and> elbowAngle < 110 then Down
          else if elbowAngle > 150 then Up else stage prev)"
  using assms
  by (auto simp: pushupsStep_def Let_def setBackStraight_def setFullyUp_def setDeepEnough_def)

section \<open>Full-body sample poses\<close>

lemma land_poseOf: "i < 33 \<Longrightarrow> land (poseOf f) i = f i"
  by (simp add: land_def poseOf_def lm_def)

lemma land_bodyPose:
  "land (bodyPose s h a) 12 = s" "land (bodyPose s h a) 24 = h" "land (bodyPose s h a) 28 = a"
  "land (bodyPose s h a) 11 = (0, 0)" "land (bodyPose s h a) 13 = (0, 0)"
  "land (bodyPose s h a) 14 = (0, 0)" "land (bodyPose s h a) 15 = (0, 0)"
  "land (bodyPose s h a) 16 = (0, 0)"
  by (simp_all add: bodyPose_def land_poseOf)

text \<open>A straight body (180 degrees) and a body bent at the hip (90 degrees).\<close>

lemma body_angles:
  "calculateAngle (- 1, 0) (0, 0) (1, 0) = 180"
  "calculateAngle (0, 1) (0, 0) (1, 0) = 90"
  "calculateAngle (0, 0) (0, 0) (0, 0) = 0"
  "calculateAngle (- 1, 0) (0, 0) (0, 0) = 180"
  "calculateAngle (0, 1) (0, 0) (0, 0) = 90"
  by (simp_all add: calculateAngle_def atan2_def Let_def)

section \<open>The plank processor\<close>

text \<open>
  C8. On a frame whose shoulder-hip-ankle angle (landmarks 12, 24, 28) lies strictly
  inside the band 155 to 205, the plank processor sets \<open>isTimerRunning\<close> to true and the
  feedback to the affirmative message; on any other frame it sets it to false and the
  feedback to the corrective message. This holds for \<^verbatim>\<open>nextPlank\<close> and through the
  dispatch of an active plank session. The processor leaves \<open>reps\<close> and \<open>goodReps\<close> alone
  and hands the cooldown timestamp back unchanged. On its body, the angles 180, 210, 170
  fed in this order give true, false, true.
\<close>

theorem plank_hold_band:
  "(155 < calculateAngle (land lms 12) (land lms 24) (land lms 28)
      \<and> calculateAngle (land lms 12) (land lms 24) (land lms 28) < 205 \<longrightarrow>
      isTimerRunning (fst (nextPlank lms now prev l)) = Some True
      \<and> feedback (fst (nextPlank lms now prev l)) = [''Good form! Hold it.''])
   \<and> (calculateAngle (land lms 12) (land lms 24) (land lms 28) \<le> 155
      \<or> 205 \<le> calculateAngle (land lms 12) (land lms 24) (land lms 28) \<longrightarrow>
      isTimerRunning (fst (nextPlank lms now prev l)) = Some False
      \<and> feedback (fst (nextPlank lms now prev l)) = [''Straighten your back!''])
   \<and> reps (fst (nextPlank lms now prev l)) = reps prev
   \<and> goodReps (fst (nextPlank lms now prev l)) = goodReps prev
   \<and> snd (nextPlank lms now prev l) = l
   \<and> (selectedExerciseRef eng = Some ''plank'' \<longrightarrow>
      reps (metricsRef (onPoseResults frame now eng)) = reps (metricsRef eng)
      \<and> goodReps (metricsRef (onPoseResults frame now eng)) = goodReps (metricsRef eng)
      \<and> lastRepAtRef (onPoseResults frame now eng) = lastRepAtRef eng)
   \<and> (selectedExerciseRef eng = Some ''plank'' \<and> isActiveRef eng
      \<and> 155 < calculateAngle (land lms 12) (land lms 24) (land lms 28)
      \<and> calculateAngle (land lms 12) (land lms 24) (land lms 28) < 205 \<longrightarrow>
      isTimerRunning (metricsRef (onPoseResults (Some lms) now eng)) = Some True
      \<and> feedback (metricsRef (onPoseResults (Some lms) now eng)) = [''Good form! Hold it.''])
   \<and> (selectedExerciseRef eng = Some ''plank'' \<and> isActiveRef eng
      \<and> (calculateAngle (land lms 12) (land lms 24) (land lms 28) \<le> 155
         \<or> 205 \<le> calculateAngle (land lms 12) (land lms 24) (land lms 28)) \<longrightarrow>
      isTimerRunning (metricsRef (onPoseResults (Some lms) now eng)) = Some False
      \<and> feedback (metricsRef (onPoseResults (Some lms) now eng)) = [''Straighten your back!''])
   \<and> (155 < a \<and> a < 205 \<longrightarrow>
      isTimerRunning (plankStep a prev) = Some True
      \<and> feedback (plankStep a prev) = [''Good form! Hold it.''])
   \<and> (a \<le> 155 \<or> 205 \<le> a \<longrightarrow>
      isTimerRunning (plankStep a prev) = Some False
      \<and> feedback (plankStep a prev) = [''Straighten your back!''])
   \<and> map isTimerRunning
        [plankStep 180 prev,
         plankStep 210 (plankStep 180 prev),
         plankStep 170 (plankStep 210 (plankStep 180 prev))]
       = [Some True, Some False, Some True]"
proof -
  have p: "exerciseProcessors ''plank'' = Some nextPlank"
    by (simp add: exerciseProcessors_def)
  have c1: "(155 < calculateAngle (land lms 12) (land lms 24) (land lms 28)
          \<and> calculateAngle (land lms 12) (land lms 24) (land lms 28) < 205 \<longrightarrow>
          isTimerRunning (fst (nextPlank lms now prev l)) = Some True
          \<and> feedback (fst (nextPlank lms now prev l)) = [''Good form! Hold it.''])"
    by (simp add: nextPlank_def bodyAngleOf_def plankStep_def)
  have c2: "(calculateAngle (land lms 12) (land lms 24) (land lms 28) \<le> 155
          \<or> 205 \<le> calculateAngle (land lms 12) (land lms 24) (land lms 28) \<longrightarrow>
          isTimerRunning (fst (nextPlank lms now prev l)) = Some False
          \<and> feedback (fst (nextPlank lms now prev l)) = [''Straighten your back!''])"
    by (simp add: nextPlank_def bodyAngleOf_def plankStep_def)
  have c3: "reps (fst (nextPlank lms now prev l)) = reps prev"
    by (simp add: nextPlank_def plankStep_def)
  have c4: "goodReps (fst (nextPlank lms now prev l)) = goodReps prev"
    by (simp add: nextPlank_def plankStep_def)
  have c5: "snd (nextPlank lms now prev l) = l"
    by (simp add: nextPlank_def)
  have c6: "(selectedExerciseRef eng = Some ''plank'' \<longrightarrow>
          reps (metricsRef (onPoseResults frame now eng)) = reps (metricsRef eng)
          \<and> goodReps (metricsRef (onPoseResults frame now eng)) = goodReps (metricsRef eng)
          \<and> lastRepAtRef (onPoseResults frame now eng) = lastRepAtRef eng)"
    using p by (simp add: onPoseResults_def Let_def nextPlank_def plankStep_def split: option.split)
  have c7: "(selectedExerciseRef eng = Some ''plank'' \<and> isActiveRef eng
          \<and> 155 < calculateAngle (land lms 12) (land lms 24) (land lms 28)
          \<and> calculateAngle (land lms 12) (land lms 24) (land lms 28) < 205 \<longrightarrow>
          isTimerRunning (metricsRef (onPoseResults (Some lms) now eng)) = Some True
          \<and> feedback (metricsRef (onPoseResults (Some lms) now eng)) = [''Good form! Hold it.''])"
    using p by (simp add: onPoseResults_def Let_def nextPlank_def bodyAngleOf_def plankStep_def)
  have c8: "(selectedExerciseRef eng = Some ''plank'' \<and> isActiveRef eng
          \<and> (calculateAngle (land lms 12) (land lms 24) (land lms 28) \<le> 155
             \<or> 205 \<le> calculateAngle (land lms 12) (land lms 24) (land lms 28)) \<longrightarrow>
          isTimerRunning (metricsRef (onPoseResults (Some lms) now eng)) = Some False
          \<and> feedback (metricsRef (onPoseResults (Some lms) now eng)) = [''Straighten your back!''])"
    using p by (simp add: onPoseResults_def Let_def nextPlank_def bodyAngleOf_def plankStep_def)
  have c9: "(155 < a \<and> a < 205 \<longrightarrow>
          isTimerRunning (plankStep a prev) = Some True
          \<and> feedback (plankStep a prev) = [''Good form! Hold it.''])"
    by (simp add: plankStep_def)
  have c10: "(a \<le> 155 \<or> 205 \<le> a \<longrightarrow>
          isTimerRunning (plankStep a prev) = Some False
          \<and> feedback (plankStep a prev) = [''Straighten your back!''])"
    by (simp add: plankStep_def)
  have c11: "map isTimerRunning
            [plankStep 180 prev,
             plankStep 210 (plankStep 180 prev),
             plankStep 170 (plankStep 210 (plankStep 180 prev))]
           = [Some True, Some False, Some True]"
    by (simp add: plankStep_def)
  show ?thesis
    using c1 c2 c3 c4 c5 c6 c7 c8 c9 c10 c11 by blast
qed

theorem plank_hold_band_witness:
  "isTimerRunning (fst (nextPlank (bodyPose (- 1, 0) (0, 0) (1, 0)) 1000 base 0)) = Some True
   \<and> isTimerRunning (fst (nextPlank (bodyPose (0, 1) (0, 0) (1, 0)) 1000 base 0)) = Some False
   \<and> isTimerRunning (metricsRef (onPoseResults (Some (bodyPose (- 1, 0) (0, 0) (1, 0))) 1000
        (initialEngine\<lparr>selectedExerciseRef := Some ''plank'', isActiveRef := True\<rparr>)))
       = Some True
   \<and> feedback (metricsRef (onPoseResults (Some (bodyPose (0, 1) (0, 0) (1, 0))) 1000
        (initialEngine\<lparr>selectedExerciseRef := Some ''plank'', isActiveRef := True\<rparr>)))
       = [''Straighten your back!'']
   \<and> lastRepAtRef (onPoseResults (Some (bodyPose (0, 1) (0, 0) (1, 0))) 1000
        (initialEngine\<lparr>selectedExerciseRef := Some ''plank'', isActiveRef := True\<rparr>)) = 0
   \<and> isTimerRunning (plankStep 210 base) = Some False"
  using plank_hold_band [of "bodyPose (- 1, 0) (0, 0) (1, 0)" 1000 base 0
          "initialEngine\<lparr>selectedExerciseRef := Some ''plank'', isActiveRef := True\<rparr>"
          "Some (bodyPose (0, 1) (0, 0) (1, 0))" 180]
        plank_hold_band [of "bodyPose (0, 1) (0, 0) (1, 0)" 1000 base 0
          "initialEngine\<lparr>selectedExerciseRef := Some ''plank'', isActiveRef := True\<rparr>"
          "Some (bodyPose (0, 1) (0, 0) (1, 0))" 210]
  by (simp add: land_bodyPose body_angles initialEngine_def)

section \<open>Posture in the push-up processor\<close>

text \<open>
  C6. On a push-up frame whose shoulder-hip-ankle angle (landmarks 12, 24, 28) is below
  155 or above 205, \<^verbatim>\<open>nextPushups\<close> returns \<open>isBackStraight\<close> false; \<open>reps\<close>, \<open>goodReps\<close> and
  the cooldown timestamp are those before the frame, also when the elbow angle crosses
  below 110 from stage up, which only moves the stage to down; and the feedback is one
  corrective message: the posture message, or the depth message when that crossing stops
  between 100 and 110. The same holds through the dispatch of an active push-up session.
\<close>

theorem pushups_posture_blocks_counting:
  assumes "calculateAngle (land lms 12) (land lms 24) (land lms 28) < 155
           \<or> calculateAngle (land lms 12) (land lms 24) (land lms 28) > 205"
  shows "isBackStraight (formFlags (fst (nextPushups lms now prev lastRepAt))) = Some False
   \<and> reps (fst (nextPushups lms now prev lastRepAt)) = reps prev
   \<and> goodReps (fst (nextPushups lms now prev lastRepAt)) = goodReps prev
   \<and> snd (nextPushups lms now prev lastRepAt) = lastRepAt
   \<and> feedback (fst (nextPushups lms now prev lastRepAt))
       = (if stage prev = Up
             \<and> 100 \<le> min (calculateAngle (land lms 11) (land lms 13) (land lms 15))
                 (calculateAngle (land lms 12) (land lms 14) (land lms 16))
             \<and> min (calculateAngle (land lms 11) (land lms 13) (land lms 15))
                 (calculateAngle (land lms 12) (land lms 14) (land lms 16)) < 110
          then [''Go a bit lower.''] else [''Keep your body straight!''])
   \<and> stage (fst (nextPushups lms now prev lastRepAt))
       = (if stage prev = Up
             \<and> min (calculateAngle (land lms 11) (land lms 13) (land lms 15))
                 (calculateAngle (land lms 12) (land lms 14) (land lms 16)) < 110
          then Down
          else if min (calculateAngle (land lms 11) (land lms 13) (land lms 15))
                 (calculateAngle (land lms 12) (land lms 14) (land lms 16)) > 150
          then Up else stage prev)
   \<and> (selectedExerciseRef eng = Some ''pushups'' \<and> isActiveRef eng \<longrightarrow>
        isBackStraight (formFlags (metricsRef (onPoseResults (Some lms) now eng))) = Some False
        \<and> reps (metricsRef (onPoseResults (Some lms) now eng)) = reps (metricsRef eng)
        \<and> goodReps (metricsRef (onPoseResults (Some lms) now eng)) = goodReps (metricsRef eng)
        \<and> lastRepAtRef (onPoseResults (Some lms) now eng) = lastRepAtRef eng
        \<and> length (feedback (metricsRef (onPoseResults (Some lms) now eng))) = 1)"
proof -
  have b: "bodyAngleOf lms < 155 \<or> bodyAngleOf lms > 205"
    using assms by (simp add: bodyAngleOf_def)
  have n: "nextPushups lms now prev lastRepAt
           = pushupsStep (elbowAngleOf lms) (bodyAngleOf lms) now prev lastRepAt" for prev lastRepAt
    by (simp add: nextPushups_def)
  have e: "elbowAngleOf lms
           = min (calculateAngle (land lms 11) (land lms 13) (land lms 15))
                 (calculateAngle (land lms 12) (land lms 14) (land lms 16))"
    by (simp add: elbowAngleOf_def)
  have p: "exerciseProcessors ''pushups'' = Some nextPushups"
    by (simp add: exerciseProcessors_def)
  have d: "onPoseResults (Some lms) now eng
           = eng\<lparr>metricsRef := fst (nextPushups lms now (metricsRef eng) (lastRepAtRef eng)),
                 lastRepAtRef := snd (nextPushups lms now (metricsRef eng) (lastRepAtRef eng))\<rparr>"
    if "selectedExerciseRef eng = Some ''pushups''" and "isActiveRef eng"
    using that p by (simp add: onPoseResults_def Let_def)
  note s1 = pushupsStep_posture [OF b, of "elbowAngleOf lms" now prev lastRepAt, folded n, unfolded e]
  note s2 = pushupsStep_posture [OF b, of "elbowAngleOf lms" now "metricsRef eng" "lastRepAtRef eng",
      folded n]
  have "isBackStraight (formFlags (metricsRef (onPoseResults (Some lms) now eng))) = Some False
        \<and> reps (metricsRef (onPoseResults (Some lms) now eng)) = reps (metricsRef eng)
        \<and> goodReps (metricsRef (onPoseResults (Some lms) now eng)) = goodReps (metricsRef eng)
        \<and> lastRepAtRef (onPoseResults (Some lms) now eng) = lastRepAtRef eng
        \<and> length (feedback (metricsRef (onPoseResults (Some lms) now eng))) = 1"
    if "selectedExerciseRef eng = Some ''pushups''" and "isActiveRef eng"
    using s2 by (simp add: d [OF that])
  then show ?thesis
    using s1 by blast
qed

theorem pushups_posture_blocks_counting_witness:
  "reps (fst (nextPushups (bodyPose (0, 1) (0, 0) (1, 0)) 1000 (base\<lparr>stage := Up\<rparr>) 0)) = 0
   \<and> stage (fst (nextPushups (bodyPose (0, 1) (0, 0) (1, 0)) 1000 (base\<lparr>stage := Up\<rparr>) 0)) = Down
   \<and> feedback (fst (nextPushups (bodyPose (0, 1) (0, 0) (1, 0)) 1000 (base\<lparr>stage := Up\<rparr>) 0))
       = [''Keep your body straight!'']
   \<and> reps (metricsRef (onPoseResults (Some (bodyPose (0, 1) (0, 0) (1, 0))) 1000
        (initialEngine\<lparr>metricsRef := base\<lparr>stage := Up\<rparr>,
           selectedExerciseRef := Some ''pushups'', isActiveRef := True\<rparr>))) = 0
   \<and> lastRepAtRef (onPoseResults (Some (bodyPose (0, 1) (0, 0) (1, 0))) 1000
        (initialEngine\<lparr>metricsRef := base\<lparr>stage := Up\<rparr>,
           selectedExerciseRef := Some ''pushups'', isActiveRef := True\<rparr>)) = 0
   \<and> reps (metricsRef (onPoseResults (Some (bodyPose (- 1, 0) (0, 0) (1, 0))) 1000
        (initialEngine\<lparr>metricsRef := base\<lparr>stage := Up\<rparr>,
           selectedExerciseRef := Some ''pushups'', isActiveRef := True\<rparr>))) = 1"
proof -
  let ?sag = "bodyPose (0, 1) (0, 0) (1, 0)"
  let ?e = "initialEngine\<lparr>metricsRef := base\<lparr>stage := Up\<rparr>,
           selectedExerciseRef := Some ''pushups'', isActiveRef := True\<rparr>"
  have h: "calculateAngle (land ?sag 12) (land ?sag 24) (land ?sag 28) < 155
           \<or> calculateAngle (land ?sag 12) (land ?sag 24) (land ?sag 28) > 205"
    by (simp add: land_bodyPose body_angles)
  have straight: "reps (metricsRef (onPoseResults (Some (bodyPose (- 1, 0) (0, 0) (1, 0))) 1000 ?e))
                  = 1"
    by (simp add: onPoseResults_def exerciseProcessors_def initialEngine_def nextPushups_def
        elbowAngleOf_def bodyAngleOf_def land_bodyPose body_angles pushupsStep_def eval_defs)
  show ?thesis
    using pushups_posture_blocks_counting [OF h, of 1000 "base\<lparr>stage := Up\<rparr>" 0 ?e] straight
    by (simp add: land_bodyPose body_angles initialEngine_def base_def)
qed

section \<open>What a processor call can change\<close>

lemma tryCount_outcome:
  assumes "reps n = reps prev" "goodReps n = goodReps prev"
    and "feedback n = feedback prev \<or> length (feedback n) = 1"
  shows "outcome cd now prev l (tryCount n l now cd)"
  using assms by (auto simp: outcome_def tryCount_def Let_def)

lemma keep_outcome:
  assumes "reps n = reps prev" "goodReps n = goodReps prev"
    and "feedback n = feedback prev \<or> length (feedback n) = 1"
  shows "outcome cd now prev l (n, l)"
  using assms by (simp add: outcome_def)

lemma bicepCurlStep_outcome: "outcome 350 now prev l (bicepCurlStep a now prev l)"
  unfolding bicepCurlStep_def Let_def
  by (auto intro!: tryCount_outcome keep_outcome)

lemma squatsStep_outcome: "outcome 450 now prev l (squatsStep a now prev l)"
  unfolding squatsStep_def Let_def
  by (auto intro!: tryCount_outcome keep_outcome)

lemma pushupsStep_outcome: "outcome 450 now prev l (pushupsStep a b now prev l)"
  unfolding pushupsStep_def Let_def
  by (auto intro!: tryCount_outcome keep_outcome)

lemma lungesStep_outcome: "outcome 500 now prev l (lungesStep a b now prev l)"
  unfolding lungesStep_def Let_def
  by (auto intro!: tryCount_outcome keep_outcome)

lemma overheadPressStep_outcome: "outcome 350 now prev l (overheadPressStep a now prev l)"
  unfolding overheadPressStep_def Let_def
  by (auto intro!: tryCount_outcome keep_outcome)

lemma lateralRaisesStep_outcome: "outcome 500 now prev l (lateralRaisesStep a b now prev l)"
  unfolding lateralRaisesStep_def Let_def
  by (auto intro!: tryCount_outcome keep_outcome)

lemma pullupsStep_outcome: "outcome 600 now prev l (pullupsStep a b now prev l)"
  unfolding pullupsStep_def Let_def
  by (auto intro!: tryCount_outcome keep_outcome)

lemma gluteBridgesStep_outcome: "outcome 500 now prev l (gluteBridgesStep a now prev l)"
  unfolding gluteBridgesStep_def Let_def
  by (auto intro!: tryCount_outcome keep_outcome)

lemma crunchesStep_outcome: "outcome 400 now prev l (crunchesStep a now prev l)"
  unfolding crunchesStep_def Let_def
  by (auto intro!: tryCount_outcome keep_outcome)

lemma nextPlank_outcome: "outcome cd now prev l (nextPlank lms now prev l)"
  by (simp add: nextPlank_def plankStep_def outcome_def)

lemmas step_outcomes = bicepCurlStep_outcome squatsStep_outcome pushupsStep_outcome
  lungesStep_outcome overheadPressStep_outcome lateralRaisesStep_outcome pullupsStep_outcome
  gluteBridgesStep_outcome crunchesStep_outcome nextPlank_outcome

lemmas next_defs = nextBicepCurl_def nextSquats_def nextPushups_def nextLunges_def
  nextOverheadPress_def nextLateralRaises_def nextPullups_def nextGluteBridges_def
  nextCrunches_def

lemma processor_outcome:
  assumes "exerciseProcessors key = Some p"
  shows "outcome (cooldownOf key) now prev l (p lms now prev l)"
  using assms
  by (auto simp: exerciseProcessors_def cooldownOf_def next_defs step_outcomes split: if_splits)

lemma onPoseResults_refs [simp]:
  "selectedExerciseRef (onPoseResults f now eng) = selectedExerciseRef eng"
  "isActiveRef (onPoseResults f now eng) = isActiveRef eng"
  by (simp_all add: onPoseResults_def Let_def split: option.split)

lemma onPoseResults_outcome:
  assumes "selectedExerciseRef eng = Some key"
  shows "outcome (cooldownOf key) now (metricsRef eng) (lastRepAtRef eng)
           (metricsRef (onPoseResults f now eng), lastRepAtRef (onPoseResults f now eng))"
proof (cases "f = None \<or> \<not> isActiveRef eng \<or> exerciseProcessors key = None")
  case True
  then have "metricsRef (onPoseResults f now eng) = metricsRef eng"
    and "lastRepAtRef (onPoseResults f now eng) = lastRepAtRef eng"
    using assms by (auto simp: onPoseResults_def Let_def split: option.split)
  then show ?thesis by (simp add: keep_outcome)
next
  case False
  then obtain lms p where f: "f = Some lms" and a: "isActiveRef eng"
    and p: "exerciseProcessors key = Some p" by auto
  have "onPoseResults f now eng
        = eng\<lparr>metricsRef := fst (p lms now (metricsRef eng) (lastRepAtRef eng)),
              lastRepAtRef := snd (p lms now (metricsRef eng) (lastRepAtRef eng))\<rparr>"
    using assms f a p by (simp add: onPoseResults_def Let_def)
  then show ?thesis
    using processor_outcome [OF p, of now "metricsRef eng" "lastRepAtRef eng" lms] by simp
qed

lemma onPoseResults_unselected:
  assumes "selectedExerciseRef eng = None"
  shows "metricsRef (onPoseResults f now eng) = metricsRef eng"
    and "lastRepAtRef (onPoseResults f now eng) = lastRepAtRef eng"
  using assms
  by (simp_all add: onPoseResults_def exerciseProcessors_def Let_def split: option.split)

lemma onPoseResults_outcome_any:
  "\<exists>cd. outcome cd now (metricsRef eng) (lastRepAtRef eng)
           (metricsRef (onPoseResults f now eng), lastRepAtRef (onPoseResults f now eng))"
proof (cases "selectedExerciseRef eng")
  case None
  then show ?thesis
    by (simp add: onPoseResults_unselected keep_outcome)
next
  case (Some key)
  then show ?thesis
    using onPoseResults_outcome by blast
qed

section \<open>The counter invariant\<close>

lemma outcome_countsOk:
  assumes "outcome cd now prev l r" and "countsOk prev"
  shows "countsOk (fst r)"
  using assms unfolding outcome_def countsOk_def by auto

lemma step_countsOk:
  assumes "countsOk (metricsRef eng)"
  shows "countsOk (metricsRef (step eng ev))"
proof (cases ev)
  case (PoseResults f now)
  obtain cd where "outcome cd now (metricsRef eng) (lastRepAtRef eng)
      (metricsRef (onPoseResults f now eng), lastRepAtRef (onPoseResults f now eng))"
    using onPoseResults_outcome_any by blast
  from outcome_countsOk [OF this assms] show ?thesis
    using PoseResults by simp
next
  case (SelectExercise sel)
  then show ?thesis
    using assms by (simp add: selectExercise_def countsOk_def base_def)
next
  case StartWorkout
  then show ?thesis using assms by (simp add: startWorkout_def)
next
  case EndWorkout
  then show ?thesis using assms by (simp add: endWorkout_def)
next
  case ResetWorkout
  then show ?thesis by (simp add: resetWorkout_def countsOk_def base_def)
next
  case TimerTick
  then show ?thesis using assms by (simp add: timerTick_def countsOk_def)
qed

lemma run_countsOk:
  assumes "countsOk (metricsRef eng)"
  shows "countsOk (metricsRef (run eng evs))"
  using assms unfolding run_def
  by (induction evs arbitrary: eng) (simp_all add: step_countsOk)

lemma applyProcessor_countsOk:
  assumes "countsOk (fst s)"
  shows "countsOk (fst (applyProcessor key lms now s))"
proof (cases "exerciseProcessors key")
  case None
  then show ?thesis using assms by (simp add: applyProcessor_def)
next
  case (Some p)
  from outcome_countsOk [OF processor_outcome [OF Some] assms]
  show ?thesis using Some by (simp add: applyProcessor_def)
qed

lemma runProcessors_countsOk:
  assumes "countsOk (fst s)"
  shows "countsOk (fst (runProcessors s calls))"
  using assms unfolding runProcessors_def
  by (induction calls arbitrary: s) (simp_all add: applyProcessor_countsOk)

text \<open>
  C1. Every state reached from the initial engine by any sequence of events (frames
  handled by whichever processor is selected, with or without landmarks, exercise
  selection, start, end and reset of the workout, timer ticks) satisfies
  \<open>0 \<le> goodReps \<le> reps\<close>. So does every state reached from the all-zero metrics by
  any sequence of processor calls, each by any of the ten processors, on any landmarks,
  at any clock values and from any cooldown timestamp.
\<close>

theorem reachable_counts_invariant:
  "0 \<le> goodReps (metricsRef (run initialEngine evs))
   \<and> goodReps (metricsRef (run initialEngine evs)) \<le> reps (metricsRef (run initialEngine evs))
   \<and> 0 \<le> goodReps (fst (runProcessors (base, l) calls))
   \<and> goodReps (fst (runProcessors (base, l) calls)) \<le> reps (fst (runProcessors (base, l) calls))"
proof -
  have "countsOk (metricsRef initialEngine)"
    by (simp add: countsOk_def initialEngine_def base_def)
  then have "countsOk (metricsRef (run initialEngine evs))"
    by (rule run_countsOk)
  moreover have "countsOk (fst (runProcessors (base, l) calls))"
    by (rule runProcessors_countsOk) (simp add: countsOk_def base_def)
  ultimately show ?thesis by (simp add: countsOk_def)
qed

section \<open>Debouncing\<close>

lemma runFrames_Cons [simp]:
  "runFrames eng (f # fs) = runFrames (onPoseResults (fst f) (snd f) eng) fs"
  "runFrames eng [] = eng"
  by (simp_all add: runFrames_def)

lemma runFrames_quiet:
  assumes "selectedExerciseRef eng = Some key"
    and "\<forall>f \<in> set frames. snd f - lastRepAtRef eng \<le> cooldownOf key"
  shows "reps (metricsRef (runFrames eng frames)) = reps (metricsRef eng)
         \<and> goodReps (metricsRef (runFrames eng frames)) = goodReps (metricsRef eng)
         \<and> lastRepAtRef (runFrames eng frames) = lastRepAtRef eng"
  using assms
proof (induction frames arbitrary: eng)
  case Nil
  then show ?case by simp
next
  case (Cons f frames)
  let ?e = "onPoseResults (fst f) (snd f) eng"
  have o: "outcome (cooldownOf key) (snd f) (metricsRef eng) (lastRepAtRef eng)
             (metricsRef ?e, lastRepAtRef ?e)"
    using Cons.prems(1) by (rule onPoseResults_outcome)
  have "snd f - lastRepAtRef eng \<le> cooldownOf key"
    using Cons.prems(2) by simp
  with o have same: "reps (metricsRef ?e) = reps (metricsRef eng)"
    "goodReps (metricsRef ?e) = goodReps (metricsRef eng)"
    "lastRepAtRef ?e = lastRepAtRef eng"
    by (auto simp: outcome_def)
  have "selectedExerciseRef ?e = Some key"
    using Cons.prems(1) by simp
  moreover have "\<forall>g \<in> set frames. snd g - lastRepAtRef ?e \<le> cooldownOf key"
    using Cons.prems(2) same(3) by simp
  ultimately show ?case
    using Cons.IH [of ?e] same by simp
qed

lemma runFrames_window:
  assumes "selectedExerciseRef eng = Some key"
    and "\<forall>f \<in> set frames. lo \<le> snd f \<and> snd f \<le> lo + cooldownOf key"
  shows "reps (metricsRef eng) \<le> reps (metricsRef (runFrames eng frames))
         \<and> reps (metricsRef (runFrames eng frames)) \<le> reps (metricsRef eng) + 1"
  using assms
proof (induction frames arbitrary: eng)
  case Nil
  then show ?case by simp
next
  case (Cons f frames)
  let ?e = "onPoseResults (fst f) (snd f) eng"
  have sel: "selectedExerciseRef ?e = Some key"
    using Cons.prems(1) by simp
  have win: "\<forall>g \<in> set frames. lo \<le> snd g \<and> snd g \<le> lo + cooldownOf key"
    using Cons.prems(2) by simp
  have o: "outcome (cooldownOf key) (snd f) (metricsRef eng) (lastRepAtRef eng)
             (metricsRef ?e, lastRepAtRef ?e)"
    using Cons.prems(1) by (rule onPoseResults_outcome)
  show ?case
  proof (cases "reps (metricsRef ?e) = reps (metricsRef eng)")
    case True
    then show ?thesis
      using Cons.IH [OF sel win] by simp
  next
    case False
    with o have acc: "reps (metricsRef ?e) = reps (metricsRef eng) + 1"
      "lastRepAtRef ?e = snd f"
      by (auto simp: outcome_def)
    have "lo \<le> snd f" using Cons.prems(2) by simp
    then have "\<forall>g \<in> set frames. snd g - lastRepAtRef ?e \<le> cooldownOf key"
      using win acc(2) by auto
    from runFrames_quiet [OF sel this] acc show ?thesis by simp
  qed
qed

section \<open>Sample poses\<close>

text \<open>
  Straight arm (180 degrees), arm folded onto itself (0 degrees), and arms at 45, 90 and
  135 degrees; these are the frames of the concrete runs below.
\<close>

lemma land_armPose:
  "land (armPose s e w) 11 = s" "land (armPose s e w) 12 = s"
  "land (armPose s e w) 13 = e" "land (armPose s e w) 14 = e"
  "land (armPose s e w) 15 = w" "land (armPose s e w) 16 = w"
  by (simp_all add: land_def armPose_def lm_def nth_append)

lemma elbowAngleOf_armPose: "elbowAngleOf (armPose s e w) = calculateAngle s e w"
  by (simp add: elbowAngleOf_def land_armPose)

lemma sample_angles:
  "calculateAngle (-1, 0) (0, 0) (1, 0) = 180"
  "calculateAngle (1, 0) (0, 0) (1, 1) = 45"
  "calculateAngle (1, 0) (0, 0) (0, 1) = 90"
  "calculateAngle (1, 0) (0, 0) (-1, 1) = 135"
  "calculateAngle (1, 0) (0, 0) (1, 0) = 0"
  by (simp_all add: calculateAngle_def atan2_def Let_def arctan_minus arctan_one)

text \<open>
  C2, the debounce scenario as the specification gives it: the bicep-curl angles with
  the second repetition at 150 ms instead of 400 ms. Both candidates (45 degrees at
  0 ms, 35 degrees at 150 ms) are within 350 ms of the initial timestamp 0, so neither
  is counted: of two candidates less than a cooldown apart, none is counted here, not
  exactly one.
\<close>

theorem debounce_scenario_literal:
  "reps (fst (runAngles bicepCurlStep (base, 0)
       [(170, 0), (160, 0), (45, 0), (170, 100), (35, 150)])) = 0
   \<and> snd (runAngles bicepCurlStep (base, 0)
       [(170, 0), (160, 0), (45, 0), (170, 100), (35, 150)]) = 0"
  by (simp add: bicepCurlStep_def eval_defs)

text \<open>
  C2, amended. The gate counts a candidate exactly when \<open>now - lastRepAt > cooldownMs\<close>
  and then stores \<open>now\<close>; otherwise it returns the metrics and the timestamp it was
  given. Hence, for the selected exercise and any list of frames whose timestamps lie in
  one window no longer than that exercise's cooldown, \<open>reps\<close> grows by at most one over
  the whole list, however many frames and candidates the list holds; it grows by
  exactly one when the first frame of the list is counted. When every timestamp of the
  list is within the cooldown of the stored timestamp (the initial \<open>0\<close> included),
  \<open>reps\<close>, \<open>goodReps\<close> and the stored timestamp do not change at all.
\<close>

theorem cooldown_gate_debounce:
  "(reps (fst (tryCount nxt l now cd)) = reps nxt + 1 \<longleftrightarrow> now - l > cd)
   \<and> (now - l > cd \<longrightarrow> snd (tryCount nxt l now cd) = now)
   \<and> (now - l \<le> cd \<longrightarrow> tryCount nxt l now cd = (nxt, l))
   \<and> (selectedExerciseRef eng = Some key
       \<and> (\<forall>f \<in> set frames. lo \<le> snd f \<and> snd f \<le> lo + cooldownOf key) \<longrightarrow>
       reps (metricsRef eng) \<le> reps (metricsRef (runFrames eng frames))
       \<and> reps (metricsRef (runFrames eng frames)) \<le> reps (metricsRef eng) + 1)
   \<and> (selectedExerciseRef eng = Some key
       \<and> (\<forall>f \<in> set (g # frames). lo \<le> snd f \<and> snd f \<le> lo + cooldownOf key)
       \<and> reps (metricsRef (runFrames eng [g])) = reps (metricsRef eng) + 1 \<longrightarrow>
       reps (metricsRef (runFrames eng (g # frames))) = reps (metricsRef eng) + 1)
   \<and> (selectedExerciseRef eng = Some key
       \<and> (\<forall>f \<in> set frames. snd f - lastRepAtRef eng \<le> cooldownOf key) \<longrightarrow>
       reps (metricsRef (runFrames eng frames)) = reps (metricsRef eng)
       \<and> goodReps (metricsRef (runFrames eng frames)) = goodReps (metricsRef eng)
       \<and> lastRepAtRef (runFrames eng frames) = lastRepAtRef eng)"
proof -
  have "reps (fst (tryCount nxt l now cd)) = reps nxt + 1 \<longleftrightarrow> now - l > cd"
    by (simp add: tryCount_def Let_def)
  moreover have "now - l > cd \<longrightarrow> snd (tryCount nxt l now cd) = now"
    by (simp add: tryCount_def Let_def)
  moreover have "now - l \<le> cd \<longrightarrow> tryCount nxt l now cd = (nxt, l)"
    by (simp add: tryCount_def)
  moreover have "reps (metricsRef (runFrames eng (g # frames))) = reps (metricsRef eng) + 1"
    if sel: "selectedExerciseRef eng = Some key"
      and win: "\<forall>f \<in> set (g # frames). lo \<le> snd f \<and> snd f \<le> lo + cooldownOf key"
      and first: "reps (metricsRef (runFrames eng [g])) = reps (metricsRef eng) + 1"
  proof -
    let ?e = "onPoseResults (fst g) (snd g) eng"
    have "selectedExerciseRef ?e = Some key" using sel by simp
    moreover have "\<forall>f \<in> set frames. lo \<le> snd f \<and> snd f \<le> lo + cooldownOf key"
      using win by simp
    ultimately have "reps (metricsRef ?e) \<le> reps (metricsRef (runFrames ?e frames))"
      using runFrames_window [of ?e key frames lo] by blast
    moreover have "reps (metricsRef (runFrames eng (g # frames))) \<le> reps (metricsRef eng) + 1"
      using runFrames_window [OF sel win] by blast
    ultimately show ?thesis using first by simp
  qed
  ultimately show ?thesis
    using runFrames_window [of eng key frames lo] runFrames_quiet [of eng key frames] by blast
qed

lemmas engine_eval = runFrames_def onPoseResults_def exerciseProcessors_def initialEngine_def
  nextBicepCurl_def bicepCurlStep_def elbowAngleOf_armPose sample_angles

theorem cooldown_gate_debounce_witness:
  "reps (metricsRef (runFrames
      (initialEngine\<lparr>metricsRef := base\<lparr>stage := Down\<rparr>,
         selectedExerciseRef := Some ''bicep_curl'', isActiveRef := True\<rparr>)
      [(Some (armPose (1, 0) (0, 0) (1, 0)), 1000)])) = 1
   \<and> reps (metricsRef (runFrames
      (initialEngine\<lparr>metricsRef := base\<lparr>stage := Down\<rparr>,
         selectedExerciseRef := Some ''bicep_curl'', isActiveRef := True\<rparr>)
      [(Some (armPose (1, 0) (0, 0) (1, 0)), 1000), (Some (armPose (-1, 0) (0, 0) (1, 0)), 1100),
       (Some (armPose (1, 0) (0, 0) (1, 0)), 1300)])) = 1
   \<and> reps (metricsRef (runFrames
      (initialEngine\<lparr>metricsRef := base\<lparr>reps := 1, stage := Down\<rparr>,
         selectedExerciseRef := Some ''bicep_curl'', isActiveRef := True, lastRepAtRef := 5000\<rparr>)
      [(Some (armPose (1, 0) (0, 0) (1, 0)), 5100), (Some (armPose (-1, 0) (0, 0) (1, 0)), 5150),
       (Some (armPose (1, 0) (0, 0) (1, 0)), 5200)])) = 1
   \<and> lastRepAtRef (runFrames
      (initialEngine\<lparr>metricsRef := base\<lparr>reps := 1, stage := Down\<rparr>,
         selectedExerciseRef := Some ''bicep_curl'', isActiveRef := True, lastRepAtRef := 5000\<rparr>)
      [(Some (armPose (1, 0) (0, 0) (1, 0)), 5100), (Some (armPose (-1, 0) (0, 0) (1, 0)), 5150),
       (Some (armPose (1, 0) (0, 0) (1, 0)), 5200)]) = 5000
   \<and> tryCount base 0 300 350 = (base, 0)
   \<and> snd (tryCount base 0 400 350) = 400"
proof -
  let ?e = "initialEngine\<lparr>metricsRef := base\<lparr>stage := Down\<rparr>,
         selectedExerciseRef := Some ''bicep_curl'', isActiveRef := True\<rparr>"
  let ?g = "(Some (armPose (1, 0) (0, 0) (1, 0)), 1000 :: real)"
  let ?fs = "[(Some (armPose (-1, 0) (0, 0) (1, 0)), 1100 :: real),
       (Some (armPose (1, 0) (0, 0) (1, 0)), 1300)]"
  let ?d = "initialEngine\<lparr>metricsRef := base\<lparr>reps := 1, stage := Down\<rparr>,
         selectedExerciseRef := Some ''bicep_curl'', isActiveRef := True, lastRepAtRef := 5000\<rparr>"
  let ?qs = "[(Some (armPose (1, 0) (0, 0) (1, 0)), 5100 :: real),
       (Some (armPose (-1, 0) (0, 0) (1, 0)), 5150), (Some (armPose (1, 0) (0, 0) (1, 0)), 5200)]"
  have sel: "selectedExerciseRef ?e = Some ''bicep_curl''"
    by simp
  have win: "\<forall>f \<in> set (?g # ?fs). 1000 \<le> snd f \<and> snd f \<le> 1000 + cooldownOf ''bicep_curl''"
    by (simp add: cooldownOf_def)
  have first: "reps (metricsRef (runFrames ?e [?g])) = reps (metricsRef ?e) + 1"
    by (simp add: engine_eval eval_defs)
  have a: "reps (metricsRef (runFrames ?e [?g])) = 1
      \<and> reps (metricsRef (runFrames ?e (?g # ?fs))) = 1
      \<and> tryCount base 0 300 350 = (base, 0)
      \<and> snd (tryCount base 0 400 350) = 400"
    using cooldown_gate_debounce [of base 0 300 350 ?e "''bicep_curl''" ?fs 1000 ?g]
      cooldown_gate_debounce [of base 0 400 350 ?e "''bicep_curl''" ?fs 1000 ?g]
      sel win first
    by (simp add: initialEngine_def base_def)
  have seld: "selectedExerciseRef ?d = Some ''bicep_curl''"
    by simp
  have near: "\<forall>f \<in> set ?qs. snd f - lastRepAtRef ?d \<le> cooldownOf ''bicep_curl''"
    by (simp add: cooldownOf_def)
  have b: "reps (metricsRef (runFrames ?d ?qs)) = 1 \<and> lastRepAtRef (runFrames ?d ?qs) = 5000"
    using cooldown_gate_debounce [of base 0 300 350 ?d "''bicep_curl''" ?qs 5000 ?g] seld near
    by (simp add: initialEngine_def base_def)
  show ?thesis using a b by simp
qed

section \<open>Feedback\<close>

lemma step_feedback_short:
  assumes "length (feedback (metricsRef eng)) \<le> 1"
  shows "length (feedback (metricsRef (step eng ev))) \<le> 1"
proof (cases ev)
  case (PoseResults f now)
  obtain cd where "outcome cd now (metricsRef eng) (lastRepAtRef eng)
      (metricsRef (onPoseResults f now eng), lastRepAtRef (onPoseResults f now eng))"
    using onPoseResults_outcome_any by blast
  then show ?thesis
    using PoseResults assms by (auto simp: outcome_def)
next
  case (SelectExercise sel)
  then show ?thesis
    using assms by (simp add: selectExercise_def base_def)
next
  case StartWorkout
  then show ?thesis using assms by (simp add: startWorkout_def)
next
  case EndWorkout
  then show ?thesis using assms by (simp add: endWorkout_def)
next
  case ResetWorkout
  then show ?thesis by (simp add: resetWorkout_def base_def)
next
  case TimerTick
  then show ?thesis using assms by (simp add: timerTick_def)
qed

lemma run_feedback_short:
  assumes "length (feedback (metricsRef eng)) \<le> 1"
  shows "length (feedback (metricsRef (run eng evs))) \<le> 1"
  using assms
proof (induction evs arbitrary: eng)
  case Nil
  then show ?case by (simp add: run_def)
next
  case (Cons ev evs)
  have "length (feedback (metricsRef (step eng ev))) \<le> 1"
    using Cons.prems by (rule step_feedback_short)
  then have "length (feedback (metricsRef (run (step eng ev) evs))) \<le> 1"
    by (rule Cons.IH)
  then show ?case by (simp add: run_def)
qed

section \<open>Hysteresis\<close>

lemma between_not_pastExit:
  assumes "betweenRelaxed key f"
  shows "\<not> pastExit key f"
  using assms by (auto simp: betweenRelaxed_def pastExit_def split: option.splits)

lemma processor_table:
  "exerciseProcessors ''bicep_curl'' = Some nextBicepCurl"
  "exerciseProcessors ''squats'' = Some nextSquats"
  "exerciseProcessors ''pushups'' = Some nextPushups"
  "exerciseProcessors ''lunges'' = Some nextLunges"
  "exerciseProcessors ''overhead_press'' = Some nextOverheadPress"
  "exerciseProcessors ''lateral_raises'' = Some nextLateralRaises"
  "exerciseProcessors ''pullups'' = Some nextPullups"
  "exerciseProcessors ''glute_bridges'' = Some nextGluteBridges"
  "exerciseProcessors ''crunches'' = Some nextCrunches"
  by (simp_all add: exerciseProcessors_def)

lemma threshold_table:
  "relaxedThresholds ''bicep_curl'' = (150, 50)"
  "relaxedThresholds ''squats'' = (160, 120)"
  "relaxedThresholds ''pushups'' = (150, 110)"
  "relaxedThresholds ''lunges'' = (150, 120)"
  "relaxedThresholds ''overhead_press'' = (110, 140)"
  "relaxedThresholds ''lateral_raises'' = (40, 60)"
  "relaxedThresholds ''pullups'' = (0, 0)"
  "relaxedThresholds ''glute_bridges'' = (140, 150)"
  "relaxedThresholds ''crunches'' = (115, 110)"
  by (simp_all add: relaxedThresholds_def)

lemma combined_table:
  "combinedAngle ''bicep_curl'' lms = elbowAngleOf lms"
  "combinedAngle ''squats'' lms = kneeAngleOf lms"
  "combinedAngle ''pushups'' lms = elbowAngleOf lms"
  "combinedAngle ''lunges'' lms = kneeAngleOf lms"
  "combinedAngle ''overhead_press'' lms = elbowAngleOf lms"
  "combinedAngle ''lateral_raises'' lms = shoulderAngleOf lms"
  "combinedAngle ''pullups'' lms = wristYOf lms - shoulderYOf lms"
  "combinedAngle ''glute_bridges'' lms = hipAngleMaxOf lms"
  "combinedAngle ''crunches'' lms = hipAngleMinOf lms"
  by (simp_all add: combinedAngle_def)

lemma dynamicExercises_cases:
  assumes "key \<in> set dynamicExercises"
  shows "key = ''bicep_curl'' \<or> key = ''squats'' \<or> key = ''pushups'' \<or> key = ''lunges''
    \<or> key = ''overhead_press'' \<or> key = ''lateral_raises'' \<or> key = ''pullups''
    \<or> key = ''glute_bridges'' \<or> key = ''crunches''"
  using assms unfolding dynamicExercises_def
  by (simp only: list.set insert_iff empty_iff simp_thms)

text \<open>Each processor body is quiet while its quantity is not beyond the exit threshold.\<close>

lemma bicep_quiet: "50 \<le> a \<Longrightarrow> quiet prev l (bicepCurlStep a now prev l)"
  by (auto simp: quiet_def bicepCurlStep_def Let_def)

lemma squats_quiet: "120 \<le> a \<Longrightarrow> quiet prev l (squatsStep a now prev l)"
  by (auto simp: quiet_def squatsStep_def Let_def)

lemma pushups_quiet: "110 \<le> a \<Longrightarrow> quiet prev l (pushupsStep a b now prev l)"
  by (auto simp: quiet_def pushupsStep_def Let_def)

lemma lunges_quiet: "120 \<le> min a b \<Longrightarrow> quiet prev l (lungesStep a b now prev l)"
  by (auto simp: quiet_def lungesStep_def Let_def)

lemma overheadPress_quiet: "a \<le> 140 \<Longrightarrow> quiet prev l (overheadPressStep a now prev l)"
  by (auto simp: quiet_def overheadPressStep_def Let_def)

lemma lateralRaises_quiet: "a \<le> 60 \<Longrightarrow> quiet prev l (lateralRaisesStep a b now prev l)"
  by (auto simp: quiet_def lateralRaisesStep_def Let_def)

lemma pullups_quiet: "0 \<le> w - s \<Longrightarrow> quiet prev l (pullupsStep w s now prev l)"
  by (auto simp: quiet_def pullupsStep_def Let_def)

lemma gluteBridges_quiet: "a \<le> 150 \<Longrightarrow> quiet prev l (gluteBridgesStep a now prev l)"
  by (auto simp: quiet_def gluteBridgesStep_def Let_def)

lemma crunches_quiet: "110 \<le> a \<Longrightarrow> quiet prev l (crunchesStep a now prev l)"
  by (auto simp: quiet_def crunchesStep_def Let_def)

lemma bicep_curl_quiet_at:
  assumes "\<not> pastExit ''bicep_curl'' (Some lms, t)"
  shows "\<exists>p. exerciseProcessors ''bicep_curl'' = Some p \<and> quiet prev l (p lms now prev l)"
proof -
  have h: "50 \<le> elbowAngleOf lms"
    using assms by (simp add: pastExit_def threshold_table combined_table)
  show ?thesis
    by (simp add: processor_table nextBicepCurl_def bicep_quiet [OF h])
qed

lemma squats_quiet_at:
  assumes "\<not> pastExit ''squats'' (Some lms, t)"
  shows "\<exists>p. exerciseProcessors ''squats'' = Some p \<and> quiet prev l (p lms now prev l)"
proof -
  have h: "120 \<le> kneeAngleOf lms"
    using assms by (simp add: pastExit_def threshold_table combined_table)
  show ?thesis
    by (simp add: processor_table nextSquats_def squats_quiet [OF h])
qed

lemma pushups_quiet_at:
  assumes "\<not> pastExit ''pushups'' (Some lms, t)"
  shows "\<exists>p. exerciseProcessors ''pushups'' = Some p \<and> quiet prev l (p lms now prev l)"
proof -
  have h: "110 \<le> elbowAngleOf lms"
    using assms by (simp add: pastExit_def threshold_table combined_table)
  show ?thesis
    by (simp add: processor_table nextPushups_def pushups_quiet [OF h])
qed

lemma lunges_quiet_at:
  assumes "\<not> pastExit ''lunges'' (Some lms, t)"
  shows "\<exists>p. exerciseProcessors ''lunges'' = Some p \<and> quiet prev l (p lms now prev l)"
proof -
  have h: "120 \<le> kneeAngleOf lms"
    using assms by (simp add: pastExit_def threshold_table combined_table)
  show ?thesis
    by (simp add: processor_table nextLunges_def lunges_quiet [OF h [unfolded kneeAngleOf_def]])
qed

lemma overhead_press_quiet_at:
  assumes "\<not> pastExit ''overhead_press'' (Some lms, t)"
  shows "\<exists>p. exerciseProcessors ''overhead_press'' = Some p \<and> quiet prev l (p lms now prev l)"
proof -
  have h: "elbowAngleOf lms \<le> 140"
    using assms by (simp add: pastExit_def threshold_table combined_table)
  show ?thesis
    by (simp add: processor_table nextOverheadPress_def overheadPress_quiet [OF h])
qed

lemma lateral_raises_quiet_at:
  assumes "\<not> pastExit ''lateral_raises'' (Some lms, t)"
  shows "\<exists>p. exerciseProcessors ''lateral_raises'' = Some p \<and> quiet prev l (p lms now prev l)"
proof -
  have h: "shoulderAngleOf lms \<le> 60"
    using assms by (simp add: pastExit_def threshold_table combined_table)
  show ?thesis
    by (simp add: processor_table nextLateralRaises_def lateralRaises_quiet [OF h])
qed

lemma pullups_quiet_at:
  assumes "\<not> pastExit ''pullups'' (Some lms, t)"
  shows "\<exists>p. exerciseProcessors ''pullups'' = Some p \<and> quiet prev l (p lms now prev l)"
proof -
  have h: "0 \<le> wristYOf lms - shoulderYOf lms"
    using assms by (simp add: pastExit_def threshold_table combined_table)
  show ?thesis
    by (simp add: processor_table nextPullups_def pullups_quiet [OF h])
qed

lemma glute_bridges_quiet_at:
  assumes "\<not> pastExit ''glute_bridges'' (Some lms, t)"
  shows "\<exists>p. exerciseProcessors ''glute_bridges'' = Some p \<and> quiet prev l (p lms now prev l)"
proof -
  have h: "hipAngleMaxOf lms \<le> 150"
    using assms by (simp add: pastExit_def threshold_table combined_table)
  show ?thesis
    by (simp add: processor_table nextGluteBridges_def gluteBridges_quiet [OF h])
qed

lemma crunches_quiet_at:
  assumes "\<not> pastExit ''crunches'' (Some lms, t)"
  shows "\<exists>p. exerciseProcessors ''crunches'' = Some p \<and> quiet prev l (p lms now prev l)"
proof -
  have h: "110 \<le> hipAngleMinOf lms"
    using assms by (simp add: pastExit_def threshold_table combined_table)
  show ?thesis
    by (simp add: processor_table nextCrunches_def crunches_quiet [OF h])
qed

lemma processor_quiet:
  assumes "key \<in> set dynamicExercises" and "\<not> pastExit key (Some lms, t)"
  shows "\<exists>p. exerciseProcessors key = Some p \<and> quiet prev l (p lms now prev l)"
proof -
  from dynamicExercises_cases [OF assms(1)] show ?thesis
  proof (elim disjE)
    assume k: "key = ''bicep_curl''"
    show ?thesis using assms(2) unfolding k by (rule bicep_curl_quiet_at)
  next
    assume k: "key = ''squats''"
    show ?thesis using assms(2) unfolding k by (rule squats_quiet_at)
  next
    assume k: "key = ''pushups''"
    show ?thesis using assms(2) unfolding k by (rule pushups_quiet_at)
  next
    assume k: "key = ''lunges''"
    show ?thesis using assms(2) unfolding k by (rule lunges_quiet_at)
  next
    assume k: "key = ''overhead_press''"
    show ?thesis using assms(2) unfolding k by (rule overhead_press_quiet_at)
  next
    assume k: "key = ''lateral_raises''"
    show ?thesis using assms(2) unfolding k by (rule lateral_raises_quiet_at)
  next
    assume k: "key = ''pullups''"
    show ?thesis using assms(2) unfolding k by (rule pullups_quiet_at)
  next
    assume k: "key = ''glute_bridges''"
    show ?thesis using assms(2) unfolding k by (rule glute_bridges_quiet_at)
  next
    assume k: "key = ''crunches''"
    show ?thesis using assms(2) unfolding k by (rule crunches_quiet_at)
  qed
qed

text \<open>Each processor body keeps the stage while its quantity is strictly between the thresholds.\<close>

lemma bicep_still: "50 < a \<Longrightarrow> a < 150 \<Longrightarrow> stage (fst (bicepCurlStep a now prev l)) = stage prev"
  by (auto simp: bicepCurlStep_def Let_def)

lemma squats_still: "120 < a \<Longrightarrow> a < 160 \<Longrightarrow> stage (fst (squatsStep a now prev l)) = stage prev"
  by (auto simp: squatsStep_def Let_def)

lemma pushups_still: "110 < a \<Longrightarrow> a < 150 \<Longrightarrow> stage (fst (pushupsStep a b now prev l)) = stage prev"
  by (auto simp: pushupsStep_def Let_def)

lemma lunges_still: "120 < min a b \<Longrightarrow> min a b < 150 \<Longrightarrow> stage (fst (lungesStep a b now prev l)) = stage prev"
  by (auto simp: lungesStep_def Let_def)

lemma overheadPress_still: "110 < a \<Longrightarrow> a < 140 \<Longrightarrow> stage (fst (overheadPressStep a now prev l)) = stage prev"
  by (auto simp: overheadPressStep_def Let_def)

lemma lateralRaises_still: "40 < a \<Longrightarrow> a < 60 \<Longrightarrow> stage (fst (lateralRaisesStep a b now prev l)) = stage prev"
  by (auto simp: lateralRaisesStep_def Let_def)

lemma pullups_still: "0 < w - s \<Longrightarrow> w - s < 0 \<Longrightarrow> stage (fst (pullupsStep w s now prev l)) = stage prev"
  by (auto simp: pullupsStep_def Let_def)

lemma gluteBridges_still: "140 < a \<Longrightarrow> a < 150 \<Longrightarrow> stage (fst (gluteBridgesStep a now prev l)) = stage prev"
  by (auto simp: gluteBridgesStep_def Let_def)

lemma crunches_still: "110 < a \<Longrightarrow> a < 115 \<Longrightarrow> stage (fst (crunchesStep a now prev l)) = stage prev"
  by (auto simp: crunchesStep_def Let_def)

lemma bicep_curl_still_at:
  assumes "betweenRelaxed ''bicep_curl'' (Some lms, t)"
  shows "\<exists>p. exerciseProcessors ''bicep_curl'' = Some p \<and> stage (fst (p lms now prev l)) = stage prev"
proof -
  have h: "50 < elbowAngleOf lms" "elbowAngleOf lms < 150"
    using assms by (simp_all add: betweenRelaxed_def threshold_table combined_table)
  show ?thesis
    by (simp add: processor_table nextBicepCurl_def bicep_still [OF h])
qed

lemma squats_still_at:
  assumes "betweenRelaxed ''squats'' (Some lms, t)"
  shows "\<exists>p. exerciseProcessors ''squats'' = Some p \<and> stage (fst (p lms now prev l)) = stage prev"
proof -
  have h: "120 < kneeAngleOf lms" "kneeAngleOf lms < 160"
    using assms by (simp_all add: betweenRelaxed_def threshold_table combined_table)
  show ?thesis
    by (simp add: processor_table nextSquats_def squats_still [OF h])
qed

lemma pushups_still_at:
  assumes "betweenRelaxed ''pushups'' (Some lms, t)"
  shows "\<exists>p. exerciseProcessors ''pushups'' = Some p \<and> stage (fst (p lms now prev l)) = stage prev"
proof -
  have h: "110 < elbowAngleOf lms" "elbowAngleOf lms < 150"
    using assms by (simp_all add: betweenRelaxed_def threshold_table combined_table)
  show ?thesis
    by (simp add: processor_table nextPushups_def pushups_still [OF h])
qed

lemma lunges_still_at:
  assumes "betweenRelaxed ''lunges'' (Some lms, t)"
  shows "\<exists>p. exerciseProcessors ''lunges'' = Some p \<and> stage (fst (p lms now prev l)) = stage prev"
proof -
  have h: "120 < kneeAngleOf lms" "kneeAngleOf lms < 150"
    using assms by (simp_all add: betweenRelaxed_def threshold_table combined_table)
  show ?thesis
    by (simp add: processor_table nextLunges_def lunges_still [OF h [unfolded kneeAngleOf_def]])
qed

lemma overhead_press_still_at:
  assumes "betweenRelaxed ''overhead_press'' (Some lms, t)"
  shows "\<exists>p. exerciseProcessors ''overhead_press'' = Some p \<and> stage (fst (p lms now prev l)) = stage prev"
proof -
  have h: "110 < elbowAngleOf lms" "elbowAngleOf lms < 140"
    using assms by (simp_all add: betweenRelaxed_def threshold_table combined_table)
  show ?thesis
    by (simp add: processor_table nextOverheadPress_def overheadPress_still [OF h])
qed

lemma lateral_raises_still_at:
  assumes "betweenRelaxed ''lateral_raises'' (Some lms, t)"
  shows "\<exists>p. exerciseProcessors ''lateral_raises'' = Some p \<and> stage (fst (p lms now prev l)) = stage prev"
proof -
  have h: "40 < shoulderAngleOf lms" "shoulderAngleOf lms < 60"
    using assms by (simp_all add: betweenRelaxed_def threshold_table combined_table)
  show ?thesis
    by (simp add: processor_table nextLateralRaises_def lateralRaises_still [OF h])
qed

lemma pullups_still_at:
  assumes "betweenRelaxed ''pullups'' (Some lms, t)"
  shows "\<exists>p. exerciseProcessors ''pullups'' = Some p \<and> stage (fst (p lms now prev l)) = stage prev"
proof -
  have h: "0 < wristYOf lms - shoulderYOf lms" "wristYOf lms - shoulderYOf lms < 0"
    using assms by (simp_all add: betweenRelaxed_def threshold_table combined_table)
  show ?thesis
    by (simp add: processor_table nextPullups_def pullups_still [OF h])
qed

lemma glute_bridges_still_at:
  assumes "betweenRelaxed ''glute_bridges'' (Some lms, t)"
  shows "\<exists>p. exerciseProcessors ''glute_bridges'' = Some p \<and> stage (fst (p lms now prev l)) = stage prev"
proof -
  have h: "140 < hipAngleMaxOf lms" "hipAngleMaxOf lms < 150"
    using assms by (simp_all add: betweenRelaxed_def threshold_table combined_table)
  show ?thesis
    by (simp add: processor_table nextGluteBridges_def gluteBridges_still [OF h])
qed

lemma crunches_still_at:
  assumes "betweenRelaxed ''crunches'' (Some lms, t)"
  shows "\<exists>p. exerciseProcessors ''crunches'' = Some p \<and> stage (fst (p lms now prev l)) = stage prev"
proof -
  have h: "110 < hipAngleMinOf lms" "hipAngleMinOf lms < 115"
    using assms by (simp_all add: betweenRelaxed_def threshold_table combined_table)
  show ?thesis
    by (simp add: processor_table nextCrunches_def crunches_still [OF h])
qed

lemma processor_still:
  assumes "key \<in> set dynamicExercises" and "betweenRelaxed key (Some lms, t)"
  shows "\<exists>p. exerciseProcessors key = Some p \<and> stage (fst (p lms now prev l)) = stage prev"
proof -
  from dynamicExercises_cases [OF assms(1)] show ?thesis
  proof (elim disjE)
    assume k: "key = ''bicep_curl''"
    show ?thesis using assms(2) unfolding k by (rule bicep_curl_still_at)
  next
    assume k: "key = ''squats''"
    show ?thesis using assms(2) unfolding k by (rule squats_still_at)
  next
    assume k: "key = ''pushups''"
    show ?thesis using assms(2) unfolding k by (rule pushups_still_at)
  next
    assume k: "key = ''lunges''"
    show ?thesis using assms(2) unfolding k by (rule lunges_still_at)
  next
    assume k: "key = ''overhead_press''"
    show ?thesis using assms(2) unfolding k by (rule overhead_press_still_at)
  next
    assume k: "key = ''lateral_raises''"
    show ?thesis using assms(2) unfolding k by (rule lateral_raises_still_at)
  next
    assume k: "key = ''pullups''"
    show ?thesis using assms(2) unfolding k by (rule pullups_still_at)
  next
    assume k: "key = ''glute_bridges''"
    show ?thesis using assms(2) unfolding k by (rule glute_bridges_still_at)
  next
    assume k: "key = ''crunches''"
    show ?thesis using assms(2) unfolding k by (rule crunches_still_at)
  qed
qed

lemma onPoseResults_quiet:
  assumes "key \<in> set dynamicExercises" and "selectedExerciseRef eng = Some key"
    and "\<not> pastExit key f"
  shows "reps (metricsRef (onPoseResults (fst f) (snd f) eng)) = reps (metricsRef eng)
         \<and> goodReps (metricsRef (onPoseResults (fst f) (snd f) eng)) = goodReps (metricsRef eng)
         \<and> lastRepAtRef (onPoseResults (fst f) (snd f) eng) = lastRepAtRef eng"
proof (cases "fst f")
  case None
  then show ?thesis by (simp add: onPoseResults_def)
next
  case (Some lms)
  show ?thesis
  proof (cases "isActiveRef eng")
    case False
    then show ?thesis using Some by (simp add: onPoseResults_def)
  next
    case True
    have "\<not> pastExit key (Some lms, snd f)"
      using assms(3) Some by (simp add: pastExit_def)
    from processor_quiet [OF assms(1) this]
    obtain p where p: "exerciseProcessors key = Some p"
      and q: "quiet (metricsRef eng) (lastRepAtRef eng)
                (p lms (snd f) (metricsRef eng) (lastRepAtRef eng))"
      by blast
    have "onPoseResults (fst f) (snd f) eng
          = eng\<lparr>metricsRef := fst (p lms (snd f) (metricsRef eng) (lastRepAtRef eng)),
                lastRepAtRef := snd (p lms (snd f) (metricsRef eng) (lastRepAtRef eng))\<rparr>"
      using assms(2) Some True p by (simp add: onPoseResults_def Let_def)
    then show ?thesis
      using q by (simp add: quiet_def)
  qed
qed

lemma onPoseResults_still:
  assumes "key \<in> set dynamicExercises" and "selectedExerciseRef eng = Some key"
    and "betweenRelaxed key f"
  shows "stage (metricsRef (onPoseResults (fst f) (snd f) eng)) = stage (metricsRef eng)"
proof (cases "fst f")
  case None
  then show ?thesis by (simp add: onPoseResults_def)
next
  case (Some lms)
  show ?thesis
  proof (cases "isActiveRef eng")
    case False
    then show ?thesis using Some by (simp add: onPoseResults_def)
  next
    case True
    have "betweenRelaxed key (Some lms, snd f)"
      using assms(3) Some by (simp add: betweenRelaxed_def)
    from processor_still [OF assms(1) this]
    obtain p where p: "exerciseProcessors key = Some p"
      and q: "stage (fst (p lms (snd f) (metricsRef eng) (lastRepAtRef eng)))
                = stage (metricsRef eng)"
      by blast
    have "onPoseResults (fst f) (snd f) eng
          = eng\<lparr>metricsRef := fst (p lms (snd f) (metricsRef eng) (lastRepAtRef eng)),
                lastRepAtRef := snd (p lms (snd f) (metricsRef eng) (lastRepAtRef eng))\<rparr>"
      using assms(2) Some True p by (simp add: onPoseResults_def Let_def)
    then show ?thesis
      using q by simp
  qed
qed

lemma runFrames_no_exit:
  assumes "key \<in> set dynamicExercises" and "selectedExerciseRef eng = Some key"
    and "\<forall>f \<in> set frames. \<not> pastExit key f"
  shows "reps (metricsRef (runFrames eng frames)) = reps (metricsRef eng)
         \<and> goodReps (metricsRef (runFrames eng frames)) = goodReps (metricsRef eng)
         \<and> lastRepAtRef (runFrames eng frames) = lastRepAtRef eng"
  using assms(2,3)
proof (induction frames arbitrary: eng)
  case Nil
  then show ?case by simp
next
  case (Cons f frames)
  let ?e = "onPoseResults (fst f) (snd f) eng"
  have "\<not> pastExit key f" using Cons.prems(2) by simp
  from onPoseResults_quiet [OF assms(1) Cons.prems(1) this]
  have same: "reps (metricsRef ?e) = reps (metricsRef eng)"
    "goodReps (metricsRef ?e) = goodReps (metricsRef eng)"
    "lastRepAtRef ?e = lastRepAtRef eng"
    by simp_all
  have "selectedExerciseRef ?e = Some key" using Cons.prems(1) by simp
  moreover have "\<forall>g \<in> set frames. \<not> pastExit key g" using Cons.prems(2) by simp
  ultimately show ?case
    using Cons.IH [of ?e] same by simp
qed

lemma runFrames_between_stage:
  assumes "key \<in> set dynamicExercises" and "selectedExerciseRef eng = Some key"
    and "\<forall>f \<in> set frames. betweenRelaxed key f"
  shows "stage (metricsRef (runFrames eng frames)) = stage (metricsRef eng)"
  using assms(2,3)
proof (induction frames arbitrary: eng)
  case Nil
  then show ?case by simp
next
  case (Cons f frames)
  let ?e = "onPoseResults (fst f) (snd f) eng"
  have "betweenRelaxed key f" using Cons.prems(2) by simp
  from onPoseResults_still [OF assms(1) Cons.prems(1) this]
  have same: "stage (metricsRef ?e) = stage (metricsRef eng)" .
  have "selectedExerciseRef ?e = Some key" using Cons.prems(1) by simp
  moreover have "\<forall>g \<in> set frames. betweenRelaxed key g" using Cons.prems(2) by simp
  ultimately show ?case
    using Cons.IH [of ?e] same by simp
qed

text \<open>
  C4. For each of the nine repetition processors: while every frame of a sequence keeps
  the tracked quantity strictly between the two relaxed thresholds, \<open>reps\<close>, \<open>goodReps\<close>,
  the stage and the cooldown timestamp after any number \<open>n\<close> of its frames are those at
  the start. More generally, while no frame goes past the exit threshold, \<open>reps\<close>,
  \<open>goodReps\<close> and the cooldown timestamp stay at their starting values.
\<close>

theorem hysteresis_no_reps:
  assumes "key \<in> set dynamicExercises" and "selectedExerciseRef eng = Some key"
  shows "((\<forall>f \<in> set frames. betweenRelaxed key f) \<longrightarrow>
            reps (metricsRef (runFrames eng (take n frames))) = reps (metricsRef eng)
            \<and> goodReps (metricsRef (runFrames eng (take n frames))) = goodReps (metricsRef eng)
            \<and> stage (metricsRef (runFrames eng (take n frames))) = stage (metricsRef eng)
            \<and> lastRepAtRef (runFrames eng (take n frames)) = lastRepAtRef eng)
       \<and> ((\<forall>f \<in> set frames. \<not> pastExit key f) \<longrightarrow>
            reps (metricsRef (runFrames eng (take n frames))) = reps (metricsRef eng)
            \<and> goodReps (metricsRef (runFrames eng (take n frames))) = goodReps (metricsRef eng)
            \<and> lastRepAtRef (runFrames eng (take n frames)) = lastRepAtRef eng)"
proof -
  have sub: "\<And>P. \<forall>f \<in> set frames. P f \<Longrightarrow> \<forall>f \<in> set (take n frames). P f"
    by (meson in_set_takeD)
  have a: "\<forall>f \<in> set frames. \<not> pastExit key f \<Longrightarrow>
        reps (metricsRef (runFrames eng (take n frames))) = reps (metricsRef eng)
        \<and> goodReps (metricsRef (runFrames eng (take n frames))) = goodReps (metricsRef eng)
        \<and> lastRepAtRef (runFrames eng (take n frames)) = lastRepAtRef eng"
    using runFrames_no_exit [OF assms, of "take n frames"] sub [of "\<lambda>f. \<not> pastExit key f"]
    by blast
  have b: "\<forall>f \<in> set frames. betweenRelaxed key f \<Longrightarrow>
        stage (metricsRef (runFrames eng (take n frames))) = stage (metricsRef eng)"
    using runFrames_between_stage [OF assms, of "take n frames"] sub [of "betweenRelaxed key"]
    by blast
  have c: "\<forall>f \<in> set frames. betweenRelaxed key f \<Longrightarrow> \<forall>f \<in> set frames. \<not> pastExit key f"
    using between_not_pastExit by blast
  show ?thesis using a b c by blast
qed

theorem hysteresis_no_reps_witness:
  "reps (metricsRef (runFrames
      (initialEngine\<lparr>metricsRef := base\<lparr>stage := Down\<rparr>,
         selectedExerciseRef := Some ''bicep_curl'', isActiveRef := True\<rparr>)
      [(Some (armPose (1, 0) (0, 0) (0, 1)), 1000), (Some (armPose (1, 0) (0, 0) (-1, 1)), 1500),
       (None, 1600), (Some (armPose (1, 0) (0, 0) (0, 1)), 2000)])) = 0
   \<and> stage (metricsRef (runFrames
      (initialEngine\<lparr>metricsRef := base\<lparr>stage := Down\<rparr>,
         selectedExerciseRef := Some ''bicep_curl'', isActiveRef := True\<rparr>)
      [(Some (armPose (1, 0) (0, 0) (0, 1)), 1000), (Some (armPose (1, 0) (0, 0) (-1, 1)), 1500),
       (None, 1600), (Some (armPose (1, 0) (0, 0) (0, 1)), 2000)])) = Down
   \<and> reps (metricsRef (runFrames
      (initialEngine\<lparr>metricsRef := base\<lparr>stage := Down\<rparr>,
         selectedExerciseRef := Some ''bicep_curl'', isActiveRef := True\<rparr>)
      [(Some (armPose (1, 0) (0, 0) (0, 1)), 1000), (Some (armPose (1, 0) (0, 0) (1, 0)), 1500)]))
     = 1"
proof -
  let ?e = "initialEngine\<lparr>metricsRef := base\<lparr>stage := Down\<rparr>,
         selectedExerciseRef := Some ''bicep_curl'', isActiveRef := True\<rparr>"
  let ?fs = "[(Some (armPose (1, 0) (0, 0) (0, 1)), 1000 :: real),
       (Some (armPose (1, 0) (0, 0) (-1, 1)), 1500), (None, 1600),
       (Some (armPose (1, 0) (0, 0) (0, 1)), 2000)]"
  have k: "''bicep_curl'' \<in> set dynamicExercises"
    by (simp add: dynamicExercises_def)
  have s: "selectedExerciseRef ?e = Some ''bicep_curl''"
    by simp
  have b: "\<forall>f \<in> set ?fs. betweenRelaxed ''bicep_curl'' f"
    by (simp add: betweenRelaxed_def threshold_table combined_table elbowAngleOf_armPose
        sample_angles)
  have last: "reps (metricsRef (runFrames ?e
      [(Some (armPose (1, 0) (0, 0) (0, 1)), 1000), (Some (armPose (1, 0) (0, 0) (1, 0)), 1500)]))
     = 1"
    by (simp add: engine_eval eval_defs)
  show ?thesis
    using hysteresis_no_reps [OF k s, of ?fs 4] b last
    by (simp add: initialEngine_def base_def)
qed

section \<open>Poses for given elbow angles\<close>

lemma atan2_sin_cos:
  assumes "0 \<le> t" and "t \<le> pi"
  shows "atan2 (sin t) (cos t) = t"
proof -
  consider "t < pi / 2" | "t = pi / 2" | "pi / 2 < t" by linarith
  then show ?thesis
  proof cases
    case 1
    then have "0 < cos t"
      using assms(1) by (intro cos_gt_zero_pi) linarith+
    moreover have "arctan (tan t) = t"
      using 1 assms(1) by (intro arctan_tan) linarith+
    ultimately show ?thesis
      by (simp add: atan2_def tan_def)
  next
    case 2
    show ?thesis unfolding 2 by (simp add: atan2_def)
  next
    case 3
    have "0 < cos (t - pi)"
      using 3 assms(2) by (intro cos_gt_zero_pi) linarith+
    then have c: "cos t < 0" by (simp add: cos_diff)
    have s: "0 \<le> sin t"
      using assms by (rule sin_ge_zero)
    have "arctan (tan (t - pi)) = t - pi"
      using 3 assms(2) by (intro arctan_tan) linarith+
    moreover have "tan (t - pi) = sin t / cos t"
      by (simp add: tan_def sin_diff cos_diff)
    ultimately show ?thesis
      using c s by (simp add: atan2_def)
  qed
qed

text \<open>Every angle from 0 to 180 degrees is the elbow angle of some pose.\<close>

lemma elbowAngle_realizable:
  assumes "0 \<le> d" and "d \<le> 180"
  shows "elbowAngleOf (poseAt d) = d"
proof -
  have t: "0 \<le> d * pi / 180" "d * pi / 180 \<le> pi"
    using assms pi_gt_zero by (simp_all add: divide_simps mult_left_le_one_le)
  have z: "atan2 0 1 = 0" by (simp add: atan2_def)
  have r: "(0 - d * pi / 180) * 180 / pi = - d"
    using pi_gt_zero by simp
  have "calculateAngle (cos (d * pi / 180), sin (d * pi / 180)) (0, 0) (1, 0)
        = (if \<bar>- d\<bar> > 180 then 360 - \<bar>- d\<bar> else \<bar>- d\<bar>)"
    unfolding calculateAngle_def Let_def
    by (simp only: fst_conv snd_conv diff_zero z atan2_sin_cos [OF t] r)
  also have "\<dots> = d"
    using assms by simp
  finally show ?thesis
    by (simp add: poseAt_def elbowAngleOf_armPose)
qed

text \<open>Through the dispatch, a run of bicep-curl frames is the run of its elbow angles.\<close>

lemma runFrames_bicep:
  assumes "selectedExerciseRef eng = Some ''bicep_curl''" and "isActiveRef eng"
  shows "(metricsRef (runFrames eng (map (\<lambda>f. (Some (fst f), snd f)) fs)),
          lastRepAtRef (runFrames eng (map (\<lambda>f. (Some (fst f), snd f)) fs)))
         = runAngles bicepCurlStep (metricsRef eng, lastRepAtRef eng)
             (map (\<lambda>f. (elbowAngleOf (fst f), snd f)) fs)"
  using assms
proof (induction fs arbitrary: eng)
  case Nil
  then show ?case by (simp add: runAngles_def)
next
  case (Cons f fs)
  let ?r = "bicepCurlStep (elbowAngleOf (fst f)) (snd f) (metricsRef eng) (lastRepAtRef eng)"
  let ?e = "onPoseResults (Some (fst f)) (snd f) eng"
  have e: "?e = eng\<lparr>metricsRef := fst ?r, lastRepAtRef := snd ?r\<rparr>"
    using Cons.prems
    by (simp add: onPoseResults_def processor_table nextBicepCurl_def Let_def)
  have "selectedExerciseRef ?e = Some ''bicep_curl''" "isActiveRef ?e"
    using Cons.prems by simp_all
  from Cons.IH [OF this] show ?case
    by (simp add: e runAngles_def)
qed

text \<open>
  The bicep-curl scenario on frames, through the dispatch: poses with elbow angles 170,
  160, 45, 170, 35, the two curls at times \<open>t1 > 350\<close> and \<open>t2 > t1 + 350\<close>.
\<close>

lemma bicep_scenario_frames:
  assumes "350 < t1" and "350 < t2 - t1"
  shows "reps (metricsRef (runFrames
           (initialEngine\<lparr>selectedExerciseRef := Some ''bicep_curl'', isActiveRef := True\<rparr>)
           [(Some (poseAt 170), s1), (Some (poseAt 160), s2), (Some (poseAt 45), t1),
            (Some (poseAt 170), s3), (Some (poseAt 35), t2)])) = 2
       \<and> goodReps (metricsRef (runFrames
           (initialEngine\<lparr>selectedExerciseRef := Some ''bicep_curl'', isActiveRef := True\<rparr>)
           [(Some (poseAt 170), s1), (Some (poseAt 160), s2), (Some (poseAt 45), t1),
            (Some (poseAt 170), s3), (Some (poseAt 35), t2)])) = 1"
proof -
  let ?e = "initialEngine\<lparr>selectedExerciseRef := Some ''bicep_curl'', isActiveRef := True\<rparr>"
  let ?fs = "[(poseAt 170, s1), (poseAt 160, s2), (poseAt 45, t1), (poseAt 170, s3),
              (poseAt 35, t2)]"
  have m: "map (\<lambda>f. (Some (fst f), snd f)) ?fs
           = [(Some (poseAt 170), s1), (Some (poseAt 160), s2), (Some (poseAt 45), t1),
              (Some (poseAt 170), s3), (Some (poseAt 35), t2)]"
    by simp
  have a: "map (\<lambda>f. (elbowAngleOf (fst f), snd f)) ?fs
           = [(170, s1), (160, s2), (45, t1), (170, s3), (35, t2)]"
    by (simp add: elbowAngle_realizable)
  have e: "selectedExerciseRef ?e = Some ''bicep_curl''" "isActiveRef ?e"
    "metricsRef ?e = base" "lastRepAtRef ?e = 0"
    by (simp_all add: initialEngine_def)
  have r: "reps (fst (runAngles bicepCurlStep (base, 0)
        [(170, s1), (160, s2), (45, t1), (170, s3), (35, t2)])) = 2
      \<and> goodReps (fst (runAngles bicepCurlStep (base, 0)
        [(170, s1), (160, s2), (45, t1), (170, s3), (35, t2)])) = 1"
    using assms by (simp add: bicepCurlStep_def eval_defs)
  from runFrames_bicep [OF e(1,2), of ?fs, unfolded m a e(3,4)] r
  show ?thesis
    by (metis fst_conv)
qed

section \<open>Which feedback a frame can leave\<close>

lemma advisory_table:
  "advisoriesOf ''bicep_curl'' = [''Curl a little higher.'', ''Good form!'']"
  "advisoriesOf ''squats'' = [''Go a bit deeper.'', ''Good form!'']"
  "advisoriesOf ''pushups'' = [''Keep your body straight!'', ''Go a bit lower.'', ''Good form!'']"
  "advisoriesOf ''lunges'' = [''Lower your hips.'', ''Good form!'']"
  "advisoriesOf ''overhead_press'' = [''Extend arms fully!'', ''Good form!'']"
  "advisoriesOf ''lateral_raises'' = [''Keep arms straighter!'', ''Raise a little higher.'', ''Good form!'']"
  "advisoriesOf ''pullups'' = [''Pull higher!'', ''Good form!'']"
  "advisoriesOf ''glute_bridges'' = [''Extend your hips fully.'', ''Good form!'']"
  "advisoriesOf ''crunches'' = [''Crunch a little higher.'', ''Good form!'']"
  "advisoriesOf ''plank'' = [''Good form! Hold it.'', ''Straighten your back!'']"
  by (simp_all add: advisoriesOf_def)

lemma tryCount_wrote:
  assumes "feedback n = feedback prev \<or> feedback n \<in> set (map (\<lambda>s. [s]) msgs)"
    and "''Good form!'' \<in> set msgs"
  shows "wrote msgs prev (tryCount n l now cd)"
  using assms by (auto simp: wrote_def tryCount_def Let_def)

lemma keep_wrote:
  assumes "feedback n = feedback prev \<or> feedback n \<in> set (map (\<lambda>s. [s]) msgs)"
  shows "wrote msgs prev (n, l)"
  using assms by (simp add: wrote_def)

lemma bicep_wrote: "wrote [''Curl a little higher.'', ''Good form!''] prev (bicepCurlStep a now prev l)"
  unfolding bicepCurlStep_def Let_def
  by (auto intro!: tryCount_wrote keep_wrote)

lemma squats_wrote: "wrote [''Go a bit deeper.'', ''Good form!''] prev (squatsStep a now prev l)"
  unfolding squatsStep_def Let_def
  by (auto intro!: tryCount_wrote keep_wrote)

lemma pushups_wrote: "wrote [''Keep your body straight!'', ''Go a bit lower.'', ''Good form!''] prev (pushupsStep a b now prev l)"
  unfolding pushupsStep_def Let_def
  by (auto intro!: tryCount_wrote keep_wrote)

lemma lunges_wrote: "wrote [''Lower your hips.'', ''Good form!''] prev (lungesStep a b now prev l)"
  unfolding lungesStep_def Let_def
  by (auto intro!: tryCount_wrote keep_wrote)

lemma overheadPress_wrote: "wrote [''Extend arms fully!'', ''Good form!''] prev (overheadPressStep a now prev l)"
  unfolding overheadPressStep_def Let_def
  by (auto intro!: tryCount_wrote keep_wrote)

lemma lateralRaises_wrote: "wrote [''Keep arms straighter!'', ''Raise a little higher.'', ''Good form!''] prev (lateralRaisesStep a b now prev l)"
  unfolding lateralRaisesStep_def Let_def
  by (auto intro!: tryCount_wrote keep_wrote)

lemma pullups_wrote: "wrote [''Pull higher!'', ''Good form!''] prev (pullupsStep w s now prev l)"
  unfolding pullupsStep_def Let_def
  by (auto intro!: tryCount_wrote keep_wrote)

lemma gluteBridges_wrote: "wrote [''Extend your hips fully.'', ''Good form!''] prev (gluteBridgesStep a now prev l)"
  unfolding gluteBridgesStep_def Let_def
  by (auto intro!: tryCount_wrote keep_wrote)

lemma crunches_wrote: "wrote [''Crunch a little higher.'', ''Good form!''] prev (crunchesStep a now prev l)"
  unfolding crunchesStep_def Let_def
  by (auto intro!: tryCount_wrote keep_wrote)

lemma plank_wrote: "wrote [''Good form! Hold it.'', ''Straighten your back!''] prev (nextPlank lms now prev l)"
  by (simp add: wrote_def nextPlank_def plankStep_def)

lemmas step_wrote = bicep_wrote squats_wrote pushups_wrote lunges_wrote overheadPress_wrote
  lateralRaises_wrote pullups_wrote gluteBridges_wrote crunches_wrote plank_wrote

lemma processor_wrote:
  assumes "exerciseProcessors key = Some p"
  shows "wrote (advisoriesOf key) prev (p lms now prev l)"
  using assms
  by (auto simp: exerciseProcessors_def advisoriesOf_def next_defs step_wrote split: if_splits)

text \<open>Each repetition processor keeps the feedback on a frame that writes no advisory.\<close>

lemma bicep_keeps: "50 \<le> a \<Longrightarrow> feedback (fst (bicepCurlStep a now prev l)) = feedback prev"
  by (auto simp: bicepCurlStep_def Let_def)

lemma squats_keeps: "120 \<le> a \<Longrightarrow> feedback (fst (squatsStep a now prev l)) = feedback prev"
  by (auto simp: squatsStep_def Let_def)

lemma pushups_keeps: "110 \<le> a \<Longrightarrow> 155 \<le> b \<and> b \<le> 205 \<Longrightarrow> feedback (fst (pushupsStep a b now prev l)) = feedback prev"
  by (auto simp: pushupsStep_def Let_def)

lemma lunges_keeps: "120 \<le> min a b \<Longrightarrow> feedback (fst (lungesStep a b now prev l)) = feedback prev"
  by (auto simp: lungesStep_def Let_def)

lemma overheadPress_keeps: "a \<le> 140 \<Longrightarrow> feedback (fst (overheadPressStep a now prev l)) = feedback prev"
  by (auto simp: overheadPressStep_def Let_def)

lemma lateralRaises_keeps: "a \<le> 60 \<Longrightarrow> 140 \<le> b \<Longrightarrow> feedback (fst (lateralRaisesStep a b now prev l)) = feedback prev"
  by (auto simp: lateralRaisesStep_def Let_def)

lemma pullups_keeps: "0 \<le> w - s \<Longrightarrow> feedback (fst (pullupsStep w s now prev l)) = feedback prev"
  by (auto simp: pullupsStep_def Let_def)

lemma gluteBridges_keeps: "a \<le> 150 \<Longrightarrow> feedback (fst (gluteBridgesStep a now prev l)) = feedback prev"
  by (auto simp: gluteBridgesStep_def Let_def)

lemma crunches_keeps: "110 \<le> a \<Longrightarrow> feedback (fst (crunchesStep a now prev l)) = feedback prev"
  by (auto simp: crunchesStep_def Let_def)

lemma bicep_curl_keeps_at:
  assumes "\<not> pastExit ''bicep_curl'' (Some lms, t)" and "\<not> postureAdvisory ''bicep_curl'' lms"
  shows "\<exists>p. exerciseProcessors ''bicep_curl'' = Some p \<and> feedback (fst (p lms now prev l)) = feedback prev"
proof -
  have h: "50 \<le> elbowAngleOf lms"
    using assms(1) by (simp add: pastExit_def threshold_table combined_table)
  show ?thesis
    by (simp add: processor_table nextBicepCurl_def bicep_keeps [OF h])
qed

lemma squats_keeps_at:
  assumes "\<not> pastExit ''squats'' (Some lms, t)" and "\<not> postureAdvisory ''squats'' lms"
  shows "\<exists>p. exerciseProcessors ''squats'' = Some p \<and> feedback (fst (p lms now prev l)) = feedback prev"
proof -
  have h: "120 \<le> kneeAngleOf lms"
    using assms(1) by (simp add: pastExit_def threshold_table combined_table)
  show ?thesis
    by (simp add: processor_table nextSquats_def squats_keeps [OF h])
qed

lemma pushups_keeps_at:
  assumes "\<not> pastExit ''pushups'' (Some lms, t)" and "\<not> postureAdvisory ''pushups'' lms"
  shows "\<exists>p. exerciseProcessors ''pushups'' = Some p \<and> feedback (fst (p lms now prev l)) = feedback prev"
proof -
  have h: "110 \<le> elbowAngleOf lms"
    using assms(1) by (simp add: pastExit_def threshold_table combined_table)
  have g: "155 \<le> bodyAngleOf lms \<and> bodyAngleOf lms \<le> 205"
    using assms(2) by (simp add: postureAdvisory_def not_less)
  show ?thesis
    by (simp add: processor_table nextPushups_def pushups_keeps [OF h g])
qed

lemma lunges_keeps_at:
  assumes "\<not> pastExit ''lunges'' (Some lms, t)" and "\<not> postureAdvisory ''lunges'' lms"
  shows "\<exists>p. exerciseProcessors ''lunges'' = Some p \<and> feedback (fst (p lms now prev l)) = feedback prev"
proof -
  have h: "120 \<le> kneeAngleOf lms"
    using assms(1) by (simp add: pastExit_def threshold_table combined_table)
  show ?thesis
    by (simp add: processor_table nextLunges_def lunges_keeps [OF h [unfolded kneeAngleOf_def]])
qed

lemma overhead_press_keeps_at:
  assumes "\<not> pastExit ''overhead_press'' (Some lms, t)" and "\<not> postureAdvisory ''overhead_press'' lms"
  shows "\<exists>p. exerciseProcessors ''overhead_press'' = Some p \<and> feedback (fst (p lms now prev l)) = feedback prev"
proof -
  have h: "elbowAngleOf lms \<le> 140"
    using assms(1) by (simp add: pastExit_def threshold_table combined_table)
  show ?thesis
    by (simp add: processor_table nextOverheadPress_def overheadPress_keeps [OF h])
qed

lemma lateral_raises_keeps_at:
  assumes "\<not> pastExit ''lateral_raises'' (Some lms, t)" and "\<not> postureAdvisory ''lateral_raises'' lms"
  shows "\<exists>p. exerciseProcessors ''lateral_raises'' = Some p \<and> feedback (fst (p lms now prev l)) = feedback prev"
proof -
  have h: "shoulderAngleOf lms \<le> 60"
    using assms(1) by (simp add: pastExit_def threshold_table combined_table)
  have g: "140 \<le> elbowAngleOf lms"
    using assms(2) by (simp add: postureAdvisory_def not_less)
  show ?thesis
    by (simp add: processor_table nextLateralRaises_def lateralRaises_keeps [OF h g])
qed

lemma pullups_keeps_at:
  assumes "\<not> pastExit ''pullups'' (Some lms, t)" and "\<not> postureAdvisory ''pullups'' lms"
  shows "\<exists>p. exerciseProcessors ''pullups'' = Some p \<and> feedback (fst (p lms now prev l)) = feedback prev"
proof -
  have h: "0 \<le> wristYOf lms - shoulderYOf lms"
    using assms(1) by (simp add: pastExit_def threshold_table combined_table)
  show ?thesis
    by (simp add: processor_table nextPullups_def pullups_keeps [OF h])
qed

lemma glute_bridges_keeps_at:
  assumes "\<not> pastExit ''glute_bridges'' (Some lms, t)" and "\<not> postureAdvisory ''glute_bridges'' lms"
  shows "\<exists>p. exerciseProcessors ''glute_bridges'' = Some p \<and> feedback (fst (p lms now prev l)) = feedback prev"
proof -
  have h: "hipAngleMaxOf lms \<le> 150"
    using assms(1) by (simp add: pastExit_def threshold_table combined_table)
  show ?thesis
    by (simp add: processor_table nextGluteBridges_def gluteBridges_keeps [OF h])
qed

lemma crunches_keeps_at:
  assumes "\<not> pastExit ''crunches'' (Some lms, t)" and "\<not> postureAdvisory ''crunches'' lms"
  shows "\<exists>p. exerciseProcessors ''crunches'' = Some p \<and> feedback (fst (p lms now prev l)) = feedback prev"
proof -
  have h: "110 \<le> hipAngleMinOf lms"
    using assms(1) by (simp add: pastExit_def threshold_table combined_table)
  show ?thesis
    by (simp add: processor_table nextCrunches_def crunches_keeps [OF h])
qed

lemma processor_keeps:
  assumes "key \<in> set dynamicExercises" and "\<not> pastExit key (Some lms, t)"
    and "\<not> postureAdvisory key lms"
  shows "\<exists>p. exerciseProcessors key = Some p \<and> feedback (fst (p lms now prev l)) = feedback prev"
proof -
  from dynamicExercises_cases [OF assms(1)] show ?thesis
  proof (elim disjE)
    assume k: "key = ''bicep_curl''"
    show ?thesis using assms(2,3) unfolding k by (rule bicep_curl_keeps_at)
  next
    assume k: "key = ''squats''"
    show ?thesis using assms(2,3) unfolding k by (rule squats_keeps_at)
  next
    assume k: "key = ''pushups''"
    show ?thesis using assms(2,3) unfolding k by (rule pushups_keeps_at)
  next
    assume k: "key = ''lunges''"
    show ?thesis using assms(2,3) unfolding k by (rule lunges_keeps_at)
  next
    assume k: "key = ''overhead_press''"
    show ?thesis using assms(2,3) unfolding k by (rule overhead_press_keeps_at)
  next
    assume k: "key = ''lateral_raises''"
    show ?thesis using assms(2,3) unfolding k by (rule lateral_raises_keeps_at)
  next
    assume k: "key = ''pullups''"
    show ?thesis using assms(2,3) unfolding k by (rule pullups_keeps_at)
  next
    assume k: "key = ''glute_bridges''"
    show ?thesis using assms(2,3) unfolding k by (rule glute_bridges_keeps_at)
  next
    assume k: "key = ''crunches''"
    show ?thesis using assms(2,3) unfolding k by (rule crunches_keeps_at)
  qed
qed

text \<open>
  C5, as stated, fails: an advisory written by one frame is still the feedback after a
  later frame that writes none. The curl to 45 degrees leaves its advisory, and the
  following frame at 90 degrees, which on a fresh state yields no feedback at all,
  returns that advisory.
\<close>

theorem feedback_retained_across_frames:
  "feedback (metricsRef (runFrames
      (initialEngine\<lparr>selectedExerciseRef := Some ''bicep_curl'', isActiveRef := True\<rparr>)
      [(Some (armPose (-1, 0) (0, 0) (1, 0)), 1000), (Some (armPose (1, 0) (0, 0) (1, 1)), 1100),
       (Some (armPose (1, 0) (0, 0) (0, 1)), 1200)]))
     = [''Curl a little higher.'']
   \<and> feedback (metricsRef (runFrames
      (initialEngine\<lparr>selectedExerciseRef := Some ''bicep_curl'', isActiveRef := True\<rparr>)
      [(Some (armPose (1, 0) (0, 0) (0, 1)), 1200)]))
     = []"
  by (simp add: engine_eval eval_defs)

text \<open>
  C5, amended. A frame update never appends to the feedback list: the list it returns is
  either the list of the state before the frame, kept as it is, or a list of exactly one
  string, one of the selected processor's own messages, written on this frame. From the
  initial engine the list therefore never holds more than one string. A repetition
  processor keeps the previous list, advisories of earlier frames included, on every
  frame that is not past its exit threshold and triggers no posture advisory. The plank
  processor of an active session replaces the list on every frame with landmarks by the
  message for that frame's body angle.
\<close>

theorem feedback_kept_or_replaced:
  "(selectedExerciseRef eng = Some key \<longrightarrow>
      feedback (metricsRef (onPoseResults f now eng)) = feedback (metricsRef eng)
      \<or> feedback (metricsRef (onPoseResults f now eng)) \<in> set (map (\<lambda>s. [s]) (advisoriesOf key)))
   \<and> (feedback (metricsRef (onPoseResults f now eng)) = feedback (metricsRef eng)
      \<or> length (feedback (metricsRef (onPoseResults f now eng))) = 1)
   \<and> length (feedback (metricsRef (run initialEngine evs))) \<le> 1
   \<and> (key \<in> set dynamicExercises \<and> selectedExerciseRef eng = Some key
      \<and> \<not> pastExit key (Some lms, now) \<and> \<not> postureAdvisory key lms \<longrightarrow>
      feedback (metricsRef (onPoseResults (Some lms) now eng)) = feedback (metricsRef eng))
   \<and> (selectedExerciseRef eng = Some ''plank'' \<and> isActiveRef eng \<longrightarrow>
      feedback (metricsRef (onPoseResults (Some lms) now eng))
      = (if 155 < calculateAngle (land lms 12) (land lms 24) (land lms 28)
            \<and> calculateAngle (land lms 12) (land lms 24) (land lms 28) < 205
         then [''Good form! Hold it.''] else [''Straighten your back!'']))
   \<and> length (feedback (plankStep a prev)) = 1"
proof -
  have c1: "feedback (metricsRef (onPoseResults f now eng)) = feedback (metricsRef eng)
      \<or> feedback (metricsRef (onPoseResults f now eng)) \<in> set (map (\<lambda>s. [s]) (advisoriesOf key))"
    if sel: "selectedExerciseRef eng = Some key"
  proof (cases "f = None \<or> \<not> isActiveRef eng \<or> exerciseProcessors key = None")
    case True
    then have "metricsRef (onPoseResults f now eng) = metricsRef eng"
      using sel by (auto simp: onPoseResults_def Let_def split: option.split)
    then show ?thesis by simp
  next
    case False
    then obtain ls p where f: "f = Some ls" and a: "isActiveRef eng"
      and p: "exerciseProcessors key = Some p" by auto
    have "onPoseResults f now eng
          = eng\<lparr>metricsRef := fst (p ls now (metricsRef eng) (lastRepAtRef eng)),
                lastRepAtRef := snd (p ls now (metricsRef eng) (lastRepAtRef eng))\<rparr>"
      using sel f a p by (simp add: onPoseResults_def Let_def)
    then show ?thesis
      using processor_wrote [OF p, of "metricsRef eng" ls now "lastRepAtRef eng"]
      by (simp add: wrote_def)
  qed
  obtain cd where "outcome cd now (metricsRef eng) (lastRepAtRef eng)
      (metricsRef (onPoseResults f now eng), lastRepAtRef (onPoseResults f now eng))"
    using onPoseResults_outcome_any by blast
  then have c2: "feedback (metricsRef (onPoseResults f now eng)) = feedback (metricsRef eng)
    \<or> length (feedback (metricsRef (onPoseResults f now eng))) = 1"
    by (simp add: outcome_def)
  have c3: "length (feedback (metricsRef (run initialEngine evs))) \<le> 1"
    by (rule run_feedback_short) (simp add: initialEngine_def base_def)
  have c4: "feedback (metricsRef (onPoseResults (Some lms) now eng)) = feedback (metricsRef eng)"
    if k: "key \<in> set dynamicExercises" and sel: "selectedExerciseRef eng = Some key"
      and e: "\<not> pastExit key (Some lms, now)" and g: "\<not> postureAdvisory key lms"
  proof (cases "isActiveRef eng")
    case False
    then show ?thesis by (simp add: onPoseResults_def)
  next
    case True
    from processor_keeps [OF k e g]
    obtain p where p: "exerciseProcessors key = Some p"
      and q: "feedback (fst (p lms now (metricsRef eng) (lastRepAtRef eng)))
                = feedback (metricsRef eng)"
      by blast
    have "onPoseResults (Some lms) now eng
          = eng\<lparr>metricsRef := fst (p lms now (metricsRef eng) (lastRepAtRef eng)),
                lastRepAtRef := snd (p lms now (metricsRef eng) (lastRepAtRef eng))\<rparr>"
      using sel True p by (simp add: onPoseResults_def Let_def)
    then show ?thesis using q by simp
  qed
  have c5: "feedback (metricsRef (onPoseResults (Some lms) now eng))
      = (if 155 < calculateAngle (land lms 12) (land lms 24) (land lms 28)
            \<and> calculateAngle (land lms 12) (land lms 24) (land lms 28) < 205
         then [''Good form! Hold it.''] else [''Straighten your back!''])"
    if "selectedExerciseRef eng = Some ''plank''" and "isActiveRef eng"
    using that
    by (simp add: onPoseResults_def Let_def exerciseProcessors_def nextPlank_def
        bodyAngleOf_def plankStep_def)
  have c6: "length (feedback (plankStep a prev)) = 1"
    by (simp add: plankStep_def)
  show ?thesis
    using c1 c2 c3 c4 c5 c6 by blast
qed

theorem feedback_kept_or_replaced_witness:
  "feedback (metricsRef (onPoseResults (Some (armPose (1, 0) (0, 0) (0, 1))) 1200
      (initialEngine\<lparr>metricsRef := base\<lparr>stage := Up, feedback := [''Curl a little higher.'']\<rparr>,
         selectedExerciseRef := Some ''bicep_curl'', isActiveRef := True\<rparr>)))
     = [''Curl a little higher.'']
   \<and> feedback (metricsRef (onPoseResults (Some (bodyPose (- 1, 0) (0, 0) (1, 0))) 1200
      (initialEngine\<lparr>metricsRef := base\<lparr>feedback := [''Straighten your back!'']\<rparr>,
         selectedExerciseRef := Some ''plank'', isActiveRef := True\<rparr>)))
     = [''Good form! Hold it.'']"
proof -
  let ?p = "armPose (1, 0) (0, 0) (0, 1)"
  let ?e = "initialEngine\<lparr>metricsRef := base\<lparr>stage := Up, feedback := [''Curl a little higher.'']\<rparr>,
         selectedExerciseRef := Some ''bicep_curl'', isActiveRef := True\<rparr>"
  let ?q = "bodyPose (- 1, 0) (0, 0) (1, 0)"
  let ?g = "initialEngine\<lparr>metricsRef := base\<lparr>feedback := [''Straighten your back!'']\<rparr>,
         selectedExerciseRef := Some ''plank'', isActiveRef := True\<rparr>"
  have h: "''bicep_curl'' \<in> set dynamicExercises \<and> selectedExerciseRef ?e = Some ''bicep_curl''
      \<and> \<not> pastExit ''bicep_curl'' (Some ?p, 1200) \<and> \<not> postureAdvisory ''bicep_curl'' ?p"
    by (simp add: dynamicExercises_def pastExit_def threshold_table combined_table
        elbowAngleOf_armPose sample_angles postureAdvisory_def)
  have "feedback (metricsRef (onPoseResults (Some ?p) 1200 ?e)) = feedback (metricsRef ?e)"
    using feedback_kept_or_replaced [of ?e "''bicep_curl''" "Some ?p" 1200 "[]" ?p 0 base] h
    by blast
  moreover have "feedback (metricsRef (onPoseResults (Some ?q) 1200 ?g))
      = (if 155 < calculateAngle (land ?q 12) (land ?q 24) (land ?q 28)
            \<and> calculateAngle (land ?q 12) (land ?q 24) (land ?q 28) < 205
         then [''Good form! Hold it.''] else [''Straighten your back!''])"
    using feedback_kept_or_replaced [of ?g "''plank''" "Some ?q" 1200 "[]" ?q 0 base]
    by simp
  ultimately show ?thesis
    by (simp add: land_bodyPose body_angles)
qed

end
